theory Spec2Isabelle
  imports Complex_Main "HOL-Library.Sublist"
begin

section \<open>JavaScript values used by the routes\<close>

text \<open>
  A string read from the environment, a cookie or the query string is either absent
  (\<open>undefined\<close>, \<open>null\<close>) or a string; \<open>!s\<close> holds for an absent and for an
  empty string.
\<close>

definition falsy :: "string option \<Rightarrow> bool" where
  "falsy s = (case s of None \<Rightarrow> True | Some v \<Rightarrow> v = [])"

text \<open>
  \<open>Math.ceil(total / 100)\<close> on an integer \<open>total\<close>, in integer arithmetic.
  Lemma \<open>ceil_div_real\<close> below ties it to the real-valued ceiling of the quotient.
\<close>

definition ceil_div :: "int \<Rightarrow> int \<Rightarrow> int" where
  "ceil_div a b = - ((- a) div b)"

section \<open>Collection route: the paginated fetch (GET of src/unnamed/part_003)\<close>

text \<open>
  One page of the catalog client's answer: \<open>releases\<close> and \<open>pagination.items\<close>.
  The items themselves are opaque to the route, hence the type parameter.
\<close>

record 'r page =
  page_releases :: "'r list"
  pagination_items :: int

text \<open>
  \<open>client.getCollection(username, folder, page, perPage)\<close> and
  \<open>client.getPublicCollection(...)\<close>: \<open>None\<close> is a rejected promise (the call throws).
\<close>

type_synonym 'r page_reader = "string \<Rightarrow> int \<Rightarrow> int \<Rightarrow> int \<Rightarrow> 'r page option"

text \<open>
  What the route does besides computing its answer: the page requests it issues
  (page number and page size) and the timers it awaits (milliseconds), in order.
\<close>

datatype event = Get_page int int | Set_timeout nat

datatype http_error = Http_error string nat

record 'r collection_body =
  body_releases :: "'r list"
  body_total :: int
  body_fetched :: nat

record request_env =
  consumerKey :: "string option"
  consumerSecret :: "string option"
  username :: "string option"
  accessToken :: "string option"
  accessTokenSecret :: "string option"

definition pagesToFetch :: "int \<Rightarrow> int" where
  "pagesToFetch t = min (ceil_div t 100) 5"

text \<open>
  The loop \<open>for (let page = 2; page <= pagesToFetch; page++)\<close>. Its state is the page
  counter, the accumulated \<open>releases\<close> and the event log. A page request that throws
  leaves the loop with \<open>None\<close>: nothing in the loop catches it.
\<close>

function fetch_pages ::
  "(int \<Rightarrow> int \<Rightarrow> 'r page option) \<Rightarrow> int \<Rightarrow> int \<Rightarrow> 'r list \<Rightarrow> event list
    \<Rightarrow> 'r list option \<times> event list" where
  "fetch_pages rd n page rs evs =
     (if page \<le> n then
        (case rd page 100 of
           None \<Rightarrow> (None, evs @ [Get_page page 100])
         | Some pageData \<Rightarrow>
             fetch_pages rd n (page + 1) (rs @ page_releases pageData)
               (evs @ [Get_page page 100, Set_timeout 100]))
      else (Some rs, evs))"
  by pat_completeness auto
termination
  by (relation "measure (\<lambda>(rd, n, page, rs, evs). nat (n + 1 - page))") auto

declare fetch_pages.simps [simp del]

text \<open>
  The body of either branch of the route (the two branches differ only in the client
  method they call): page 1, then pages 2 to \<open>pagesToFetch\<close>.
\<close>

definition fetch_branch ::
  "(int \<Rightarrow> int \<Rightarrow> 'r page option) \<Rightarrow> ('r list \<times> int) option \<times> event list" where
  "fetch_branch rd =
     (case rd 1 100 of
        None \<Rightarrow> (None, [Get_page 1 100])
      | Some firstPage \<Rightarrow>
          (let t = pagination_items firstPage in
           case fetch_pages rd (pagesToFetch t) 2 (page_releases firstPage) [Get_page 1 100] of
             (None, evs) \<Rightarrow> (None, evs)
           | (Some rs, evs) \<Rightarrow> (Some (rs, t), evs)))"

text \<open>
  The route. The outer \<open>try\<close> turns every exception of the fetch into the one
  answer \<open>{error: "Failed to fetch collection"}\<close> with status 500.
\<close>

definition GET ::
  "request_env \<Rightarrow> 'r page_reader \<Rightarrow> 'r page_reader
    \<Rightarrow> (http_error + 'r collection_body) \<times> event list" where
  "GET env getCollection getPublicCollection =
     (if falsy (consumerKey env) \<or> falsy (consumerSecret env) then
        (Inl (Http_error ''Discogs credentials not configured'' 500), [])
      else (case username env of
          None \<Rightarrow> (Inl (Http_error ''Username is required'' 400), [])
        | Some u \<Rightarrow>
          if u = [] then (Inl (Http_error ''Username is required'' 400), [])
          else
            (let rd = (if \<not> falsy (accessToken env) \<and> \<not> falsy (accessTokenSecret env)
                       then getCollection u 0 else getPublicCollection u 0)
             in case fetch_branch rd of
                  (None, evs) \<Rightarrow> (Inl (Http_error ''Failed to fetch collection'' 500), evs)
                | (Some (rs, t), evs) \<Rightarrow>
                    (Inr \<lparr>body_releases = rs, body_total = t, body_fetched = length rs\<rparr>,
                     evs))))"

section \<open>JavaScript numbers, sets and strings\<close>

text \<open>
  The value of a numeric expression: a finite number, an infinity or \<open>NaN\<close>. Division
  by zero raises nothing in JavaScript: it yields \<open>NaN\<close> or an infinity. In the
  percentages below a finite number is the exact rational; they are only compared with
  10, and the rounding of doubles is not modelled there. The compatibility score is
  rounded to an integer, where the rounding of doubles shows: it is computed with
  \<open>to_double\<close> further down.
\<close>

datatype jsnum = Num rat | PosInf | NegInf | NaN

definition js_div :: "int \<Rightarrow> int \<Rightarrow> jsnum" where
  "js_div a b =
     (if b \<noteq> 0 then Num (rat_of_int a / rat_of_int b)
      else if a = 0 then NaN
      else if 0 < a then PosInf else NegInf)"

text \<open>\<open>x * 100\<close> and \<open>x < 10\<close>; a comparison with \<open>NaN\<close> is false.\<close>

fun js_times_100 :: "jsnum \<Rightarrow> jsnum" where
  "js_times_100 (Num q) = Num (q * 100)"
| "js_times_100 PosInf = PosInf"
| "js_times_100 NegInf = NegInf"
| "js_times_100 NaN = NaN"

fun js_less_10 :: "jsnum \<Rightarrow> bool" where
  "js_less_10 (Num q) = (q < 10)"
| "js_less_10 PosInf = False"
| "js_less_10 NegInf = True"
| "js_less_10 NaN = False"

text \<open>\<open>Math.round\<close> on a finite number: the nearest integer, a tie going up.\<close>

definition Math_round :: "rat \<Rightarrow> int" where
  "Math_round q = \<lfloor>q + 1 / 2\<rfloor>"

text \<open>
  The double (IEEE-754 binary64) nearest to a rational, as a rational: the result of
  every arithmetic operation is rounded so. \<open>bit_length n\<close> is the number of binary
  digits of \<open>n\<close>, hence \<open>2 ^ e \<le> |q| < 2 ^ (e + 1)\<close> for the exponent \<open>e\<close> below;
  the significand \<open>m\<close> is \<open>|q| / 2 ^ (e - 52)\<close> rounded to an integer, a tie going
  to the even one. Overflow and subnormal numbers are left out: the quotients and
  products of the score lie between \<open>2 ^ -53\<close> and 100 for every size below \<open>2 ^ 53\<close>.
\<close>

function bit_length :: "int \<Rightarrow> nat" where
  "bit_length n = (if n \<le> 0 then 0 else Suc (bit_length (n div 2)))"
  by pat_completeness auto
termination
  by (relation "measure nat") auto

declare bit_length.simps [simp del]

definition pow2 :: "int \<Rightarrow> rat" where
  "pow2 k = (if 0 \<le> k then 2 ^ nat k else 1 / 2 ^ nat (- k))"

definition round_half_even :: "rat \<Rightarrow> int" where
  "round_half_even x =
     (let f = \<lfloor>x\<rfloor>; r = x - rat_of_int f
      in if r < 1 / 2 then f
         else if 1 / 2 < r then f + 1
         else if even f then f else f + 1)"

definition to_double :: "rat \<Rightarrow> rat" where
  "to_double q =
     (if q = 0 then 0
      else
        (let n = fst (quotient_of \<bar>q\<bar>);
             d = snd (quotient_of \<bar>q\<bar>);
             t = int (bit_length n) - int (bit_length d);
             e = (if pow2 t \<le> \<bar>q\<bar> then t else t - 1);
             m = round_half_even (\<bar>q\<bar> / pow2 (e - 52))
         in sgn q * rat_of_int m * pow2 (e - 52)))"

text \<open>
  A \<open>Set\<close> as the list of its elements in insertion order: \<open>new Set(xs)\<close> adds the
  elements of \<open>xs\<close> one by one, \<open>s.has(x)\<close> is \<open>x \<in> set s\<close>, \<open>s.size\<close> is
  \<open>length s\<close> and \<open>[...s]\<close> is \<open>s\<close> itself.
\<close>

definition set_add :: "'a list \<Rightarrow> 'a \<Rightarrow> 'a list" where
  "set_add s x = (if x \<in> set s then s else s @ [x])"

definition new_Set :: "'a list \<Rightarrow> 'a list" where
  "new_Set xs = foldl set_add [] xs"

text \<open>
  \<open>s.split(sep)\<close> for a non-empty separator (the routes split on \<open>" - "\<close> only):
  the pieces between the occurrences of \<open>sep\<close>, found from left to right without
  overlap. \<open>parts.join(sep)\<close> puts \<open>sep\<close> between the pieces.
\<close>

function js_split :: "string \<Rightarrow> string \<Rightarrow> string list" where
  "js_split sep s =
     (if s = [] then [[]]
      else if sep \<noteq> [] \<and> prefix sep s then [] # js_split sep (drop (length sep) s)
      else (case js_split sep (tl s) of
              [] \<Rightarrow> [[hd s]]
            | p # ps \<Rightarrow> (hd s # p) # ps))"
  by pat_completeness auto
termination
  by (relation "measure (\<lambda>(sep, s). length s)") auto

declare js_split.simps [simp del]

fun js_join :: "string \<Rightarrow> string list \<Rightarrow> string" where
  "js_join sep [] = []"
| "js_join sep [p] = p"
| "js_join sep (p # q # ps) = p @ sep @ js_join sep (q # ps)"

text \<open>
  The position of the first occurrence of \<open>sep\<close> in a string (\<open>None\<close> when there is
  none). The route does not compute it; the statements about the title parser use it to
  say "the first \<open>" - "\<close> occurrence".
\<close>

fun first_occurrence :: "string \<Rightarrow> string \<Rightarrow> nat option" where
  "first_occurrence sep [] = (if sep = [] then Some 0 else None)"
| "first_occurrence sep (c # cs) =
     (if prefix sep (c # cs) then Some 0 else map_option Suc (first_occurrence sep cs))"

section \<open>Recommendation route (POST of src/unnamed/part_001)\<close>

definition MAJOR_GENRES :: "string list" where
  "MAJOR_GENRES =
     [''Electronic'', ''Rock'', ''Jazz'', ''Hip Hop'', ''Classical'',
      ''Folk, World, & Country'', ''Funk / Soul'', ''Pop'', ''Reggae'', ''Blues'',
      ''Latin'', ''Stage & Screen'']"

text \<open>An entry \<open>{name, count}\<close> of the request's \<open>genres\<close>, and the entry with its percentage.\<close>

record genre_entry =
  genre_name :: string
  genre_count :: int

record genre_percentage =
  pct_name :: string
  pct_count :: int
  percentage :: jsnum

record recommendation_request =
  genres :: "genre_entry list"
  ownedMasterIds :: "nat list"

definition totalReleases :: "genre_entry list \<Rightarrow> int" where
  "totalReleases gs = foldl (\<lambda>sum g. sum + genre_count g) 0 gs"

definition genrePercentages :: "genre_entry list \<Rightarrow> genre_percentage list" where
  "genrePercentages gs =
     map (\<lambda>g. \<lparr>pct_name = genre_name g, pct_count = genre_count g,
               percentage = js_times_100 (js_div (genre_count g) (totalReleases gs))\<rparr>) gs"

text \<open>
  \<open>MAJOR_GENRES.filter(...).slice(0, 3)\<close>: a major genre is kept when \<open>find\<close> gives
  no entry of that name, or when the entry found has \<open>percentage < 10\<close>.
\<close>

definition is_gap :: "genre_entry list \<Rightarrow> string \<Rightarrow> bool" where
  "is_gap gs genre =
     (case find (\<lambda>g. pct_name g = genre) (genrePercentages gs) of
        None \<Rightarrow> True
      | Some userGenre \<Rightarrow> js_less_10 (percentage userGenre))"

text \<open>
  The tally that the entries stand for, as a map from genre name to count. Where a name
  occurs twice the first entry counts, as \<open>find\<close> reads it. The route does not build
  this map; the statements about the gaps are written with it.
\<close>

definition tally :: "genre_entry list \<Rightarrow> string \<rightharpoonup> int" where
  "tally gs = map_of (map (\<lambda>g. (genre_name g, genre_count g)) gs)"

definition gaps :: "genre_entry list \<Rightarrow> string list" where
  "gaps gs = take 3 (filter (is_gap gs) MAJOR_GENRES)"

definition topGenres :: "genre_entry list \<Rightarrow> string list" where
  "topGenres gs =
     map pct_name (take 2 (filter (\<lambda>g. pct_name g \<in> set MAJOR_GENRES) (genrePercentages gs)))"

definition genresToSearch :: "genre_entry list \<Rightarrow> string list" where
  "genresToSearch gs = take 4 (new_Set (gaps gs @ topGenres gs))"

text \<open>
  A search result and the release the route makes of it. Of the fields the route copies
  with a default (\<open>year\<close>, \<open>thumb\<close>, \<open>genre\<close>, \<open>style\<close>, \<open>community\<close>) none
  takes part in a decision, and they are left out here.
\<close>

record search_result =
  sr_id :: nat
  sr_master_id :: "nat option"
  sr_title :: string

record recommended_release =
  rel_id :: nat
  rel_masterId :: nat
  rel_title :: string
  rel_artist :: string

record recommendation =
  rec_genre :: string
  rec_reason :: string
  rec_releases :: "recommended_release list"

record recommendation_body =
  recommendations :: "recommendation list"
  analyzedGenres :: "string list"
  body_gaps :: "string list"

text \<open>\<open>r.master_id || r.id\<close>: an absent or zero \<open>master_id\<close> falls back to \<open>id\<close>.\<close>

definition master_or_id :: "search_result \<Rightarrow> nat" where
  "master_or_id r =
     (case sr_master_id r of
        None \<Rightarrow> sr_id r
      | Some m \<Rightarrow> if m \<noteq> 0 then m else sr_id r)"

definition not_owned :: "nat list \<Rightarrow> search_result \<Rightarrow> bool" where
  "not_owned ownedSet r = (master_or_id r \<noteq> 0 \<and> master_or_id r \<notin> set ownedSet)"

text \<open>
  The \<open>map\<close> callback: \<open>const [artist, ...titleParts] = (r.title || "").split(" - ")\<close>,
  then \<open>title: titleParts.join(" - ") || r.title || "Unknown"\<close> and
  \<open>artist: artist || "Unknown Artist"\<close>. An empty string is falsy.
\<close>

definition format_result :: "search_result \<Rightarrow> recommended_release" where
  "format_result r =
     (let parts = js_split '' - '' (sr_title r);
          artist = (case parts of [] \<Rightarrow> [] | a # ps \<Rightarrow> a);
          titleParts = (case parts of [] \<Rightarrow> [] | a # ps \<Rightarrow> ps);
          joined = js_join '' - '' titleParts
      in \<lparr>rel_id = sr_id r,
          rel_masterId = master_or_id r,
          rel_title = (if joined \<noteq> [] then joined
                       else if sr_title r \<noteq> [] then sr_title r else ''Unknown''),
          rel_artist = (if artist \<noteq> [] then artist else ''Unknown Artist'')\<rparr>)"

text \<open>
  One search promise. \<open>client.search\<close> gives \<open>None\<close> when it throws (the promise's
  own \<open>catch\<close> turns that into \<open>null\<close>), and a result whose \<open>results\<close> field may
  be absent.
\<close>

type_synonym search_client = "string \<Rightarrow> string \<Rightarrow> search_result list option option"

definition search_promise ::
  "search_client \<Rightarrow> nat list \<Rightarrow> string list \<Rightarrow> string \<Rightarrow> recommendation option" where
  "search_promise search ownedSet gs genre =
     (let isGap = (genre \<in> set gs);
          reason = (if isGap then ''Expand your horizons - you have few '' @ genre @ '' releases''
                    else ''More of what you love - '' @ genre)
      in case search genre ''master'' of
           None \<Rightarrow> None
         | Some searchResult \<Rightarrow>
             (let results = (case searchResult of None \<Rightarrow> [] | Some rs \<Rightarrow> rs);
                  filtered = map format_result (take 8 (filter (not_owned ownedSet) results))
              in if length filtered > 0
                 then Some \<lparr>rec_genre = genre, rec_reason = reason, rec_releases = filtered\<rparr>
                 else None))"

text \<open>
  The route. \<open>None\<close> for the body is a \<open>request.json()\<close> that throws. The
  \<open>username\<close> field of the environment is not read here.
\<close>

definition POST ::
  "request_env \<Rightarrow> recommendation_request option \<Rightarrow> search_client
    \<Rightarrow> http_error + recommendation_body" where
  "POST env body search =
     (if falsy (consumerKey env) \<or> falsy (consumerSecret env) then
        Inl (Http_error ''Discogs credentials not configured'' 500)
      else if falsy (accessToken env) \<or> falsy (accessTokenSecret env) then
        Inl (Http_error ''Not authenticated'' 401)
      else (case body of
          None \<Rightarrow> Inl (Http_error ''Failed to generate recommendations'' 500)
        | Some b \<Rightarrow>
            (let gs = gaps (genres b);
                 sel = genresToSearch (genres b);
                 ownedSet = new_Set (ownedMasterIds b);
                 results = map (search_promise search ownedSet gs) sel
             in Inr \<lparr>recommendations = List.map_filter (\<lambda>r. r) results,
                     analyzedGenres = sel,
                     body_gaps = gs\<rparr>)))"

section \<open>Comparison and trade matching (handleSearch of src/unnamed/part_005)\<close>

text \<open>
  \<open>basic_information\<close> as the \<open>WantlistItem\<close> interface declares it. \<open>master_id\<close>
  is a number; \<open>0\<close> is the falsy one, which the catalog uses for "no master".
  \<open>DiscogsRelease\<close> is declared in \<open>lib/discogs\<close>; the component reads its
  \<open>basic_information\<close> only, with the same fields.
\<close>

record basic_information =
  info_id :: nat
  master_id :: nat
  info_title :: string
  info_year :: nat
  info_thumb :: string
  info_artists :: "(string \<times> nat) list"
  info_genres :: "string list"
  info_styles :: "string list"

record DiscogsRelease =
  release_id :: nat
  release_info :: basic_information

record WantlistItem =
  want_id :: nat
  want_info :: basic_information

text \<open>\<open>matchedWant\<close> is the result of \<open>find\<close>, which is \<open>undefined\<close> (\<open>None\<close>) when nothing matches.\<close>

record TradeOpportunity =
  release :: DiscogsRelease
  matchedWant :: "WantlistItem option"

definition release_master :: "DiscogsRelease \<Rightarrow> nat" where
  "release_master r = master_id (release_info r)"

definition want_master :: "WantlistItem \<Rightarrow> nat" where
  "want_master w = master_id (want_info w)"

definition myMasterIds :: "DiscogsRelease list \<Rightarrow> nat list" where
  "myMasterIds myCollection = new_Set (map release_master myCollection)"

definition friendMasterIds :: "DiscogsRelease list \<Rightarrow> nat list" where
  "friendMasterIds friendCollection = new_Set (map release_master friendCollection)"

definition overlapMasterIds :: "DiscogsRelease list \<Rightarrow> DiscogsRelease list \<Rightarrow> nat list" where
  "overlapMasterIds myCollection friendCollection =
     new_Set (filter (\<lambda>i. i \<noteq> 0 \<and> i \<in> set (friendMasterIds friendCollection))
                (myMasterIds myCollection))"

definition overlap :: "DiscogsRelease list \<Rightarrow> DiscogsRelease list \<Rightarrow> DiscogsRelease list" where
  "overlap myCollection friendCollection =
     filter (\<lambda>r. release_master r \<in> set (overlapMasterIds myCollection friendCollection))
       myCollection"

definition onlyMe :: "DiscogsRelease list \<Rightarrow> DiscogsRelease list \<Rightarrow> DiscogsRelease list" where
  "onlyMe myCollection friendCollection =
     filter (\<lambda>r. release_master r \<noteq> 0 \<and>
                 release_master r \<notin> set (overlapMasterIds myCollection friendCollection))
       myCollection"

definition onlyFriend :: "DiscogsRelease list \<Rightarrow> DiscogsRelease list \<Rightarrow> DiscogsRelease list" where
  "onlyFriend myCollection friendCollection =
     filter (\<lambda>r. release_master r \<noteq> 0 \<and>
                 release_master r \<notin> set (overlapMasterIds myCollection friendCollection))
       friendCollection"

definition totalUnique :: "DiscogsRelease list \<Rightarrow> DiscogsRelease list \<Rightarrow> nat" where
  "totalUnique myCollection friendCollection =
     length (new_Set (myMasterIds myCollection @ friendMasterIds friendCollection))"

text \<open>
  \<open>Math.round((overlapMasterIds.size / totalUnique) * 100)\<close>: the quotient is a double,
  and so is its product with 100.
\<close>

definition compatibilityScore :: "DiscogsRelease list \<Rightarrow> DiscogsRelease list \<Rightarrow> int" where
  "compatibilityScore myCollection friendCollection =
     (if totalUnique myCollection friendCollection > 0
      then Math_round
             (to_double
                (to_double
                   (rat_of_nat (length (overlapMasterIds myCollection friendCollection)) /
                    rat_of_nat (totalUnique myCollection friendCollection)) * 100))
      else 0)"

text \<open>
  What a \<open>fetch\<close> of a wantlist can do: throw (the \<open>fetch\<close> itself or the
  \<open>json()\<close> that follows), answer with a status that is not OK, or answer OK with a
  body whose \<open>wants\<close> field may be absent.
\<close>

datatype wantlist_fetch = Throws | Not_ok | Ok_json "WantlistItem list option"

text \<open>
  The requests the component issues, logged in order: the friend's collection
  (\<open>/api/collection?username=\<close> with the friend's name), the friend's wantlist and
  my wantlist (\<open>/api/wantlist/\<close> with the friend's and with my name).
\<close>

datatype request = Get_friend_collection | Get_friend_wantlist | Get_my_wantlist

text \<open>
  One direction of the trade matching: the set of the wanted master ids with the falsy
  ones dropped (\<open>filter(Boolean)\<close>), the held releases whose master id is in it, each
  with the first want that \<open>find\<close> gives for its master id.
\<close>

definition trade_matches :: "DiscogsRelease list \<Rightarrow> WantlistItem list \<Rightarrow> TradeOpportunity list" where
  "trade_matches collection wants =
     (let wantMasterIds = new_Set (filter (\<lambda>i. i \<noteq> 0) (map want_master wants))
      in map (\<lambda>r. \<lparr>release = r,
                    matchedWant = find (\<lambda>w. want_master w = release_master r) wants\<rparr>)
           (filter (\<lambda>r. release_master r \<in> set wantMasterIds) collection))"

definition wants_or_empty :: "WantlistItem list option \<Rightarrow> WantlistItem list" where
  "wants_or_empty ws = (case ws of None \<Rightarrow> [] | Some l \<Rightarrow> l)"

text \<open>
  The inner \<open>try\<close> block: the friend's wantlist is fetched first, then mine. Both lists
  start empty; a fetch that throws leaves the block at once, and the \<open>catch\<close> only logs.
  \<open>theyCanOffer_of\<close> is the second half of the block (my wantlist), reached only when
  the first half did not throw. The two wantlist arguments say what each fetch does if
  it is issued; the last component of the result lists the requests that are issued.
  The result is \<open>(youCanOffer, theyCanOffer, requests)\<close>.
\<close>

definition theyCanOffer_of :: "DiscogsRelease list \<Rightarrow> wantlist_fetch \<Rightarrow> TradeOpportunity list" where
  "theyCanOffer_of friendCollection myWantlist =
     (case myWantlist of
        Throws \<Rightarrow> []
      | Not_ok \<Rightarrow> []
      | Ok_json ws \<Rightarrow> trade_matches friendCollection (wants_or_empty ws))"

definition trade_opportunities ::
  "DiscogsRelease list \<Rightarrow> DiscogsRelease list \<Rightarrow> wantlist_fetch \<Rightarrow> wantlist_fetch
    \<Rightarrow> TradeOpportunity list \<times> TradeOpportunity list \<times> request list" where
  "trade_opportunities myCollection friendCollection friendWantlist myWantlist =
     (case friendWantlist of
        Throws \<Rightarrow> ([], [], [Get_friend_wantlist])
      | Not_ok \<Rightarrow>
          ([], theyCanOffer_of friendCollection myWantlist,
           [Get_friend_wantlist, Get_my_wantlist])
      | Ok_json ws \<Rightarrow>
          (trade_matches myCollection (wants_or_empty ws),
           theyCanOffer_of friendCollection myWantlist,
           [Get_friend_wantlist, Get_my_wantlist]))"

text \<open>
  The outer \<open>try\<close> block of \<open>handleSearch\<close>, after the guards on the user names: the
  friend's collection is fetched, then compared, then the trades are matched. The
  fetch of the collection has the same three outcomes, its body holding \<open>releases\<close>;
  a thrown \<open>Error\<close> carries its message, any other thrown value does not.
  \<open>genreOverlap\<close> takes no part in any decision and is left out of the result.
  Beside the outcome the model gives the requests issued, in order.
\<close>

datatype collection_fetch = Fetch_throws "string option" | Fetch_not_ok | Fetch_ok "DiscogsRelease list option"

record ComparisonResult =
  res_friendCollection :: "DiscogsRelease list"
  res_overlap :: "DiscogsRelease list"
  res_onlyMe :: "DiscogsRelease list"
  res_onlyFriend :: "DiscogsRelease list"
  res_compatibilityScore :: int
  res_youCanOffer :: "TradeOpportunity list"
  res_theyCanOffer :: "TradeOpportunity list"

datatype search_outcome = SetError string | SetResult ComparisonResult

definition handleSearch ::
  "DiscogsRelease list \<Rightarrow> collection_fetch \<Rightarrow> wantlist_fetch \<Rightarrow> wantlist_fetch
    \<Rightarrow> search_outcome \<times> request list" where
  "handleSearch myCollection collectionResponse friendWantlist myWantlist =
     (case collectionResponse of
        Fetch_throws err \<Rightarrow>
          (SetError (case err of None \<Rightarrow> ''Failed to compare collections''
                              | Some message \<Rightarrow> message),
           [Get_friend_collection])
      | Fetch_not_ok \<Rightarrow>
          (SetError ''Failed to fetch friend's collection'', [Get_friend_collection])
      | Fetch_ok data \<Rightarrow>
          (let friend = (case data of None \<Rightarrow> [] | Some rs \<Rightarrow> rs)
           in if length friend = 0
              then (SetError ''Friend's collection is empty or private'',
                    [Get_friend_collection])
              else
                (let trades = trade_opportunities myCollection friend friendWantlist myWantlist
                 in (SetResult
                       \<lparr>res_friendCollection = friend,
                        res_overlap = overlap myCollection friend,
                        res_onlyMe = onlyMe myCollection friend,
                        res_onlyFriend = onlyFriend myCollection friend,
                        res_compatibilityScore = compatibilityScore myCollection friend,
                        res_youCanOffer = fst trades,
                        res_theyCanOffer = fst (snd trades)\<rparr>,
                     Get_friend_collection # snd (snd trades)))))"

section \<open>Example inputs\<close>

text \<open>
  A public user whose collection reports 250 items: three pages that answer, and the
  same with a third page that throws.
\<close>

definition ex_env :: request_env where
  "ex_env = \<lparr>consumerKey = Some ''key'', consumerSecret = Some ''secret'',
     username = Some ''alice'', accessToken = None, accessTokenSecret = None\<rparr>"

definition ex_reader_ok :: "nat page_reader" where
  "ex_reader_ok u folder p per =
     (if p = 1 then Some \<lparr>page_releases = [11], pagination_items = 250\<rparr>
      else if p = 2 then Some \<lparr>page_releases = [21, 22], pagination_items = 250\<rparr>
      else if p = 3 then Some \<lparr>page_releases = [31], pagination_items = 250\<rparr>
      else None)"

definition ex_reader_fail :: "nat page_reader" where
  "ex_reader_fail u folder p per =
     (if p = 1 then Some \<lparr>page_releases = [11], pagination_items = 250\<rparr>
      else if p = 2 then Some \<lparr>page_releases = [21, 22], pagination_items = 250\<rparr>
      else None)"

text \<open>A public user whose collection reports 150 items, on two pages that answer.\<close>

definition ex_reader_two :: "nat page_reader" where
  "ex_reader_two u folder p per =
     (if p = 1 then Some \<lparr>page_releases = [11], pagination_items = 150\<rparr>
      else if p = 2 then Some \<lparr>page_releases = [21], pagination_items = 150\<rparr>
      else None)"

text \<open>The tally \<open>{Rock: 100}\<close>, and \<open>{Rock: 0}\<close>, whose counts add up to zero.\<close>

definition ex_rock :: "genre_entry list" where
  "ex_rock = [\<lparr>genre_name = ''Rock'', genre_count = 100\<rparr>]"

text \<open>An authenticated request, and a search client whose every call throws.\<close>

definition ex_env_auth :: request_env where
  "ex_env_auth = \<lparr>consumerKey = Some ''key'', consumerSecret = Some ''secret'',
     username = None, accessToken = Some ''token'', accessTokenSecret = Some ''token secret''\<rparr>"

definition ex_rock_zero :: "genre_entry list" where
  "ex_rock_zero = [\<lparr>genre_name = ''Rock'', genre_count = 0\<rparr>]"

definition ex_search_down :: search_client where
  "ex_search_down genre kind = None"

text \<open>Two search results: a title with a separator and one without.\<close>

definition ex_kind_of_blue :: search_result where
  "ex_kind_of_blue = \<lparr>sr_id = 5460, sr_master_id = Some 5460,
     sr_title = ''Miles Davis - Kind Of Blue''\<rparr>"

definition ex_thriller :: search_result where
  "ex_thriller = \<lparr>sr_id = 8883, sr_master_id = None, sr_title = ''Thriller''\<rparr>"

text \<open>A release and a want with a given id and master id; the other fields do not matter.\<close>

definition mk_info :: "nat \<Rightarrow> nat \<Rightarrow> basic_information" where
  "mk_info i m = \<lparr>info_id = i, master_id = m, info_title = ''untitled'', info_year = 0,
     info_thumb = [], info_artists = [], info_genres = [], info_styles = []\<rparr>"

definition mk_release :: "nat \<Rightarrow> nat \<Rightarrow> DiscogsRelease" where
  "mk_release i m = \<lparr>release_id = i, release_info = mk_info i m\<rparr>"

definition mk_want :: "nat \<Rightarrow> nat \<Rightarrow> WantlistItem" where
  "mk_want i m = \<lparr>want_id = i, want_info = mk_info i m\<rparr>"

section \<open>Properties of the paginated fetch\<close>

lemma ceil_div_real: "ceil_div a 100 = \<lceil>real_of_int a / 100\<rceil>"
proof -
  have "- (real_of_int a / 100) = real_of_int (- a) / real_of_int 100" by simp
  then have "\<lfloor>- (real_of_int a / 100)\<rfloor> = (- a) div 100"
    by (simp only: floor_divide_of_int_eq)
  then show ?thesis by (simp add: ceil_div_def ceiling_def)
qed

lemma fetch_pages_all:
  "(\<forall>k. page \<le> k \<and> k \<le> n \<longrightarrow> rd k 100 = Some (pg k)) \<Longrightarrow>
   fetch_pages rd n page rs evs =
     (Some (rs @ concat (map (\<lambda>k. page_releases (pg k)) [page..n])),
      evs @ concat (map (\<lambda>k. [Get_page k 100, Set_timeout 100]) [page..n]))"
proof (induction rd n page rs evs rule: fetch_pages.induct)
  case (1 rd n page rs evs)
  show ?case
  proof (cases "page \<le> n")
    case True
    then have here: "rd page 100 = Some (pg page)" using "1.prems" by simp
    have rest: "\<forall>k. page + 1 \<le> k \<and> k \<le> n \<longrightarrow> rd k 100 = Some (pg k)"
      using "1.prems" by simp
    have up: "[page..n] = page # [page + 1..n]" using True by (simp add: upto_rec1)
    show ?thesis
      using "1.IH" [OF True here rest] True here
      by (subst fetch_pages.simps) (simp add: up)
  next
    case False
    then show ?thesis by (subst fetch_pages.simps) simp
  qed
qed

lemma fetch_pages_fail:
  "page \<le> k \<Longrightarrow> k \<le> n \<Longrightarrow> rd k 100 = None \<Longrightarrow>
   \<exists>j. page \<le> j \<and> j \<le> k \<and> rd j 100 = None \<and>
     fetch_pages rd n page rs evs =
       (None, evs @ concat (map (\<lambda>i. [Get_page i 100, Set_timeout 100]) [page..j - 1])
                @ [Get_page j 100])"
proof (induction rd n page rs evs rule: fetch_pages.induct)
  case (1 rd n page rs evs)
  have le: "page \<le> n" using "1.prems" by simp
  show ?case
  proof (cases "rd page 100")
    case None
    then have "fetch_pages rd n page rs evs = (None, evs @ [Get_page page 100])"
      using le by (subst fetch_pages.simps) simp
    then show ?thesis using None "1.prems" by (intro exI [of _ page]) simp
  next
    case (Some pageData)
    then have "page \<noteq> k" using "1.prems" by auto
    then have lt: "page + 1 \<le> k" using "1.prems" by simp
    from "1.IH" [OF le Some lt "1.prems"(2,3)]
    obtain j where j: "page + 1 \<le> j" "j \<le> k" "rd j 100 = None"
      "fetch_pages rd n (page + 1) (rs @ page_releases pageData)
         (evs @ [Get_page page 100, Set_timeout 100]) =
       (None, (evs @ [Get_page page 100, Set_timeout 100]) @
          concat (map (\<lambda>i. [Get_page i 100, Set_timeout 100]) [page + 1..j - 1]) @ [Get_page j 100])"
      by auto
    have up: "[page..j - 1] = page # [page + 1..j - 1]" using j(1) by (simp add: upto_rec1)
    have "fetch_pages rd n page rs evs =
       (None, evs @ concat (map (\<lambda>i. [Get_page i 100, Set_timeout 100]) [page..j - 1])
                @ [Get_page j 100])"
      using le Some j(4) by (subst fetch_pages.simps) (simp add: up)
    then show ?thesis using j(1,2,3) by (intro exI [of _ j]) simp
  qed
qed

lemma length_concat_upto:
  "(\<forall>k. a \<le> k \<and> k \<le> b \<longrightarrow> length (f k) \<le> c) \<Longrightarrow>
   length (concat (map f [a..b])) \<le> nat (b + 1 - a) * c"
proof (induction "nat (b + 1 - a)" arbitrary: a)
  case 0
  then show ?case by simp
next
  case (Suc m)
  then have le: "a \<le> b" by simp
  have up: "[a..b] = a # [a + 1..b]" using le by (simp add: upto_rec1)
  have m: "m = nat (b + 1 - (a + 1))" using Suc.hyps(2) by simp
  have "length (concat (map f [a + 1..b])) \<le> nat (b + 1 - (a + 1)) * c"
    using Suc.hyps(1) [OF m] Suc.prems by simp
  moreover have "length (f a) \<le> c" using Suc.prems le by simp
  moreover have "nat (b + 1 - a) = Suc (nat (b + 1 - (a + 1)))" using le by simp
  ultimately show ?case by (simp add: up)
qed

lemma GET_unfold:
  assumes "\<not> falsy (consumerKey env)" "\<not> falsy (consumerSecret env)"
    and "username env = Some u" "u \<noteq> []"
    and "rd = (if \<not> falsy (accessToken env) \<and> \<not> falsy (accessTokenSecret env)
               then getCollection u 0 else getPublicCollection u 0)"
    and "rd 1 100 = Some firstPage"
  shows "GET env getCollection getPublicCollection =
     (case fetch_pages rd (pagesToFetch (pagination_items firstPage)) 2
             (page_releases firstPage) [Get_page 1 100] of
        (None, evs) \<Rightarrow> (Inl (Http_error ''Failed to fetch collection'' 500), evs)
      | (Some rs, evs) \<Rightarrow>
          (Inr \<lparr>body_releases = rs, body_total = pagination_items firstPage,
                body_fetched = length rs\<rparr>, evs))"
  using assms by (simp add: GET_def fetch_branch_def Let_def split: prod.splits option.splits)

text \<open>
  Claim C9, as amended. With the credentials and a user name present, page 1 answered
  and every page from 2 to \<open>pagesToFetch\<close> answered: \<open>pagesToFetch\<close> is
  \<open>min(ceil(total / 100), 5)\<close>; the route requests page 1 and then the pages
  \<open>2..pagesToFetch\<close> one after the other, each with page size 100. The timer of
  100 ms is awaited after each of the pages \<open>2..pagesToFetch\<close>: it separates the
  requests from page 2 on and follows the last one, and page 2 is requested right after
  page 1. The route answers with the releases of these pages in order, and when no page
  holds more than 100 releases, at most 500 are fetched.
\<close>

theorem GET_pages_and_cap:
  assumes "\<not> falsy (consumerKey env)" "\<not> falsy (consumerSecret env)"
    and "username env = Some u" "u \<noteq> []"
    and "rd = (if \<not> falsy (accessToken env) \<and> \<not> falsy (accessTokenSecret env)
               then getCollection u 0 else getPublicCollection u 0)"
    and "rd 1 100 = Some firstPage"
    and "n = pagesToFetch (pagination_items firstPage)"
    and "\<forall>k. 2 \<le> k \<and> k \<le> n \<longrightarrow> rd k 100 = Some (pg k)"
  shows "n = min \<lceil>real_of_int (pagination_items firstPage) / 100\<rceil> 5 \<and>
    GET env getCollection getPublicCollection =
      (Inr \<lparr>body_releases = page_releases firstPage @ concat (map (\<lambda>k. page_releases (pg k)) [2..n]),
            body_total = pagination_items firstPage,
            body_fetched = length (page_releases firstPage @ concat (map (\<lambda>k. page_releases (pg k)) [2..n]))\<rparr>,
       Get_page 1 100 # concat (map (\<lambda>k. [Get_page k 100, Set_timeout 100]) [2..n])) \<and>
    (length (page_releases firstPage) \<le> 100 \<and>
     (\<forall>k. 2 \<le> k \<and> k \<le> n \<longrightarrow> length (page_releases (pg k)) \<le> 100) \<longrightarrow>
       length (page_releases firstPage @ concat (map (\<lambda>k. page_releases (pg k)) [2..n])) \<le> 500)"
proof (intro conjI impI)
  show "n = min \<lceil>real_of_int (pagination_items firstPage) / 100\<rceil> 5"
    using assms(7) by (simp add: pagesToFetch_def ceil_div_real)
next
  have "fetch_pages rd n 2 (page_releases firstPage) [Get_page 1 100] =
     (Some (page_releases firstPage @ concat (map (\<lambda>k. page_releases (pg k)) [2..n])),
      [Get_page 1 100] @ concat (map (\<lambda>k. [Get_page k 100, Set_timeout 100]) [2..n]))"
    using assms(8) by (intro fetch_pages_all) simp
  then show "GET env getCollection getPublicCollection =
      (Inr \<lparr>body_releases = page_releases firstPage @ concat (map (\<lambda>k. page_releases (pg k)) [2..n]),
            body_total = pagination_items firstPage,
            body_fetched = length (page_releases firstPage @ concat (map (\<lambda>k. page_releases (pg k)) [2..n]))\<rparr>,
       Get_page 1 100 # concat (map (\<lambda>k. [Get_page k 100, Set_timeout 100]) [2..n]))"
    using GET_unfold [where rd = rd and firstPage = firstPage and env = env and u = u
        and getCollection = getCollection and getPublicCollection = getPublicCollection,
        OF assms(1-6)] assms(7) by simp
next
  assume b: "length (page_releases firstPage) \<le> 100 \<and>
     (\<forall>k. 2 \<le> k \<and> k \<le> n \<longrightarrow> length (page_releases (pg k)) \<le> 100)"
  have "n \<le> 5" using assms(7) by (simp add: pagesToFetch_def)
  then have "nat (n + 1 - 2) \<le> 4" by simp
  then have "nat (n + 1 - 2) * 100 \<le> 400" by simp
  moreover have "length (concat (map (\<lambda>k. page_releases (pg k)) [2..n])) \<le> nat (n + 1 - 2) * 100"
    using b by (intro length_concat_upto) simp
  ultimately show "length (page_releases firstPage @ concat (map (\<lambda>k. page_releases (pg k)) [2..n])) \<le> 500"
    using b by simp
qed

text \<open>
  Claim C1, as amended. With page 1 answered and some request for a later page \<open>k\<close>
  (from 2 to \<open>pagesToFetch\<close>) thrown, the route answers
  \<open>{error: "Failed to fetch collection"}\<close> with status 500: the releases fetched
  so far are not returned. It does stop early: the last request it issues is the one
  for the first page \<open>j\<close> that throws.
\<close>

theorem GET_later_page_failure:
  assumes "\<not> falsy (consumerKey env)" "\<not> falsy (consumerSecret env)"
    and "username env = Some u" "u \<noteq> []"
    and "rd = (if \<not> falsy (accessToken env) \<and> \<not> falsy (accessTokenSecret env)
               then getCollection u 0 else getPublicCollection u 0)"
    and "rd 1 100 = Some firstPage"
    and "2 \<le> k" "k \<le> pagesToFetch (pagination_items firstPage)" "rd k 100 = None"
  shows "fst (GET env getCollection getPublicCollection) =
      Inl (Http_error ''Failed to fetch collection'' 500) \<and>
    (\<exists>j. 2 \<le> j \<and> j \<le> k \<and> rd j 100 = None \<and>
      snd (GET env getCollection getPublicCollection) =
        Get_page 1 100 # concat (map (\<lambda>i. [Get_page i 100, Set_timeout 100]) [2..j - 1])
          @ [Get_page j 100])"
proof -
  from fetch_pages_fail [where rd = rd and page = 2 and k = k and rs = "page_releases firstPage"
      and evs = "[Get_page 1 100]", OF assms(7-9)]
  obtain j where j: "2 \<le> j" "j \<le> k" "rd j 100 = None"
    "fetch_pages rd (pagesToFetch (pagination_items firstPage)) 2 (page_releases firstPage)
       [Get_page 1 100] =
     (None, [Get_page 1 100] @ concat (map (\<lambda>i. [Get_page i 100, Set_timeout 100]) [2..j - 1])
        @ [Get_page j 100])"
    by blast
  have g: "GET env getCollection getPublicCollection =
     (Inl (Http_error ''Failed to fetch collection'' 500),
      [Get_page 1 100] @ concat (map (\<lambda>i. [Get_page i 100, Set_timeout 100]) [2..j - 1])
        @ [Get_page j 100])"
    using GET_unfold [where rd = rd and firstPage = firstPage and env = env and u = u
        and getCollection = getCollection and getPublicCollection = getPublicCollection,
        OF assms(1-6)] j(4) by simp
  show ?thesis using g j(1-3) by (intro conjI exI [of _ j]) simp_all
qed

lemma upto_2_3: "[2..3] = [2, 3::int]" "[2..2] = [2::int]" "[2..1] = ([]::int list)"
  by (simp_all add: upto_rec1)

theorem GET_pages_and_cap_witness:
  "GET ex_env ex_reader_ok ex_reader_ok =
     (Inr \<lparr>body_releases = [11, 21, 22, 31], body_total = 250, body_fetched = 4\<rparr>,
      [Get_page 1 100, Get_page 2 100, Set_timeout 100, Get_page 3 100, Set_timeout 100]) \<and>
   pagesToFetch 250 = 3"
  using GET_pages_and_cap [where env = ex_env and u = "''alice''"
      and getCollection = ex_reader_ok and getPublicCollection = ex_reader_ok
      and rd = "ex_reader_ok ''alice'' 0"
      and firstPage = "\<lparr>page_releases = [11], pagination_items = 250\<rparr>"
      and n = 3
      and pg = "\<lambda>k. if k = 2 then \<lparr>page_releases = [21, 22], pagination_items = 250\<rparr>
                     else \<lparr>page_releases = [31], pagination_items = 250\<rparr>"]
  by (simp add: ex_env_def ex_reader_ok_def falsy_def pagesToFetch_def ceil_div_def upto_2_3)

text \<open>
  Claim C9 as stated fails in its delay between the pages: for a collection of 150 items
  the route issues two requests, page 1 and page 2, with no timer between them; the only
  timer follows page 2.
\<close>

theorem GET_no_delay_before_page_2_counterexample:
  "pagesToFetch 150 = 2 \<and>
   GET ex_env ex_reader_two ex_reader_two =
     (Inr \<lparr>body_releases = [11, 21], body_total = 150, body_fetched = 2\<rparr>,
      [Get_page 1 100, Get_page 2 100, Set_timeout 100])"
  by (simp add: ex_env_def ex_reader_two_def falsy_def pagesToFetch_def ceil_div_def
      GET_def fetch_branch_def fetch_pages.simps)

text \<open>
  Claim C1 as stated fails: page 1 answers (total 250, so three pages are due), page 2
  answers and page 3 throws; the route answers with the error, not with the three
  releases fetched.
\<close>

theorem GET_partial_result_counterexample:
  "ex_reader_fail ''alice'' 0 1 100 = Some \<lparr>page_releases = [11], pagination_items = 250\<rparr> \<and>
   pagesToFetch 250 = 3 \<and>
   ex_reader_fail ''alice'' 0 3 100 = None \<and>
   GET ex_env ex_reader_fail ex_reader_fail =
     (Inl (Http_error ''Failed to fetch collection'' 500),
      [Get_page 1 100, Get_page 2 100, Set_timeout 100, Get_page 3 100])"
  by (simp add: ex_env_def ex_reader_fail_def falsy_def pagesToFetch_def ceil_div_def
      GET_def fetch_branch_def fetch_pages.simps)

theorem GET_later_page_failure_witness:
  "fst (GET ex_env ex_reader_fail ex_reader_fail) =
      Inl (Http_error ''Failed to fetch collection'' 500) \<and>
   (\<exists>j. 2 \<le> j \<and> j \<le> 3 \<and> ex_reader_fail ''alice'' 0 j 100 = None \<and>
      snd (GET ex_env ex_reader_fail ex_reader_fail) =
        Get_page 1 100 # concat (map (\<lambda>i. [Get_page i 100, Set_timeout 100]) [2..j - 1])
          @ [Get_page j 100])"
  using GET_later_page_failure [where env = ex_env and u = "''alice''"
      and getCollection = ex_reader_fail and getPublicCollection = ex_reader_fail
      and rd = "ex_reader_fail ''alice'' 0"
      and firstPage = "\<lparr>page_releases = [11], pagination_items = 250\<rparr>"
      and k = 3]
  by (simp add: ex_env_def ex_reader_fail_def falsy_def pagesToFetch_def ceil_div_def)

section \<open>Properties of the genre analysis\<close>

subsection \<open>Sets in insertion order\<close>

lemma foldl_set_add_set: "set (foldl set_add acc xs) = set acc \<union> set xs"
  by (induction xs arbitrary: acc) (auto simp: set_add_def)

lemma foldl_set_add_distinct: "distinct acc \<Longrightarrow> distinct (foldl set_add acc xs)"
  by (induction xs arbitrary: acc) (auto simp: set_add_def)

lemma foldl_set_add_prefix: "prefix acc (foldl set_add acc xs)"
proof (induction xs arbitrary: acc)
  case Nil
  then show ?case by simp
next
  case (Cons x xs)
  have "prefix acc (set_add acc x)" by (simp add: set_add_def)
  also have "prefix (set_add acc x) (foldl set_add (set_add acc x) xs)" by (rule Cons.IH)
  finally show ?case by simp
qed

lemma foldl_set_add_fresh: "distinct (acc @ xs) \<Longrightarrow> foldl set_add acc xs = acc @ xs"
  by (induction xs arbitrary: acc) (auto simp: set_add_def)

lemma set_new_Set: "set (new_Set xs) = set xs"
  by (simp add: new_Set_def foldl_set_add_set)

lemma distinct_new_Set: "distinct (new_Set xs)"
  by (simp add: new_Set_def foldl_set_add_distinct)

lemma length_new_Set: "length (new_Set xs) = card (set xs)"
  using distinct_card [OF distinct_new_Set, of xs] by (simp add: set_new_Set)

lemma new_Set_append_prefix: "distinct xs \<Longrightarrow> prefix xs (new_Set (xs @ ys))"
proof -
  assume "distinct xs"
  then have "foldl set_add [] xs = xs" using foldl_set_add_fresh [of "[]" xs] by simp
  then have "new_Set (xs @ ys) = foldl set_add xs ys" by (simp add: new_Set_def)
  then show ?thesis by (simp add: foldl_set_add_prefix)
qed

subsection \<open>gaps\<close>

lemma distinct_MAJOR_GENRES: "distinct MAJOR_GENRES"
  by (simp add: MAJOR_GENRES_def)

lemma length_MAJOR_GENRES: "length MAJOR_GENRES = 12"
  by (simp add: MAJOR_GENRES_def)

lemma distinct_gaps: "distinct (gaps gs)"
  by (simp add: gaps_def distinct_MAJOR_GENRES)

lemma length_gaps: "length (gaps gs) \<le> 3"
  by (simp add: gaps_def)

lemma find_percentage:
  "find (\<lambda>p. pct_name p = genre)
     (map (\<lambda>g. \<lparr>pct_name = genre_name g, pct_count = genre_count g, percentage = f g\<rparr>) gs) =
   map_option (\<lambda>g. \<lparr>pct_name = genre_name g, pct_count = genre_count g, percentage = f g\<rparr>)
     (find (\<lambda>g. genre_name g = genre) gs)"
  by (induction gs) auto

lemma tally_find: "tally gs genre = map_option genre_count (find (\<lambda>g. genre_name g = genre) gs)"
  by (induction gs) (auto simp: tally_def)

lemma is_gap_tally:
  "is_gap gs genre =
     (case tally gs genre of
        None \<Rightarrow> True
      | Some c \<Rightarrow> js_less_10 (js_times_100 (js_div c (totalReleases gs))))"
  by (simp add: is_gap_def genrePercentages_def find_percentage tally_find
      split: option.splits)

lemma is_gap_positive:
  assumes "0 < totalReleases gs"
  shows "is_gap gs genre =
     (case tally gs genre of
        None \<Rightarrow> True
      | Some c \<Rightarrow> 100 * rat_of_int c / rat_of_int (totalReleases gs) < 10)"
  using assms by (simp add: is_gap_tally js_div_def mult.commute split: option.splits)

lemma is_gap_zero:
  assumes "totalReleases gs = 0"
  shows "is_gap gs genre = (case tally gs genre of None \<Rightarrow> True | Some c \<Rightarrow> c < 0)"
  using assms by (simp add: is_gap_tally js_div_def split: option.splits)

text \<open>
  Claim C7. For a tally with \<open>totalReleases > 0\<close>, the gaps are the first three (or
  fewer) entries of the major-genre list, in its order, that are absent from the tally or
  whose percentage \<open>100 * count / totalReleases\<close> is below 10. The list has 12
  entries, the gaps are at most 3, they keep the list's order, and every major genre
  absent from the tally qualifies.
\<close>

theorem gaps_positive_total:
  assumes "0 < totalReleases gs"
  shows "gaps gs =
      take 3 (filter (\<lambda>genre. case tally gs genre of
                          None \<Rightarrow> True
                        | Some c \<Rightarrow> 100 * rat_of_int c / rat_of_int (totalReleases gs) < 10)
                MAJOR_GENRES) \<and>
    length MAJOR_GENRES = 12 \<and>
    length (gaps gs) \<le> 3 \<and>
    subseq (gaps gs) MAJOR_GENRES \<and>
    (\<forall>genre \<in> set MAJOR_GENRES. tally gs genre = None \<longrightarrow> is_gap gs genre)"
proof (intro conjI ballI impI)
  have "is_gap gs = (\<lambda>genre. case tally gs genre of
                          None \<Rightarrow> True
                        | Some c \<Rightarrow> 100 * rat_of_int c / rat_of_int (totalReleases gs) < 10)"
    using is_gap_positive [OF assms] by (intro ext)
  then show "gaps gs =
      take 3 (filter (\<lambda>genre. case tally gs genre of
                          None \<Rightarrow> True
                        | Some c \<Rightarrow> 100 * rat_of_int c / rat_of_int (totalReleases gs) < 10)
                MAJOR_GENRES)"
    by (simp add: gaps_def)
next
  show "length MAJOR_GENRES = 12" by (rule length_MAJOR_GENRES)
next
  show "length (gaps gs) \<le> 3" by (rule length_gaps)
next
  have "subseq (take 3 (filter (is_gap gs) MAJOR_GENRES)) (filter (is_gap gs) MAJOR_GENRES)"
    by (metis append_take_drop_id list_emb_append_mono subseq_order.order_refl list_emb_Nil
        append_Nil2)
  then show "subseq (gaps gs) MAJOR_GENRES"
    unfolding gaps_def using subseq_filter_left subseq_order.order_trans by blast
next
  fix genre assume "tally gs genre = None"
  then show "is_gap gs genre" by (simp add: is_gap_tally)
qed

theorem gaps_positive_total_witness:
  "0 < totalReleases ex_rock \<and> gaps ex_rock = [''Electronic'', ''Jazz'', ''Hip Hop'']"
  using gaps_positive_total [of ex_rock]
  by (simp add: ex_rock_def totalReleases_def tally_def MAJOR_GENRES_def)

lemma percentage_zero_total:
  assumes "totalReleases gs = 0"
  shows "map percentage (genrePercentages gs) =
     map (\<lambda>g. if genre_count g = 0 then NaN else if 0 < genre_count g then PosInf else NegInf) gs"
  using assms by (simp add: genrePercentages_def js_div_def)

lemma POST_ok:
  assumes "\<not> falsy (consumerKey env)" "\<not> falsy (consumerSecret env)"
    and "\<not> falsy (accessToken env)" "\<not> falsy (accessTokenSecret env)"
  shows "POST env (Some b) search =
     Inr \<lparr>recommendations =
            List.map_filter (\<lambda>r. r)
              (map (search_promise search (new_Set (ownedMasterIds b)) (gaps (genres b)))
                 (genresToSearch (genres b))),
          analyzedGenres = genresToSearch (genres b),
          body_gaps = gaps (genres b)\<rparr>"
  using assms by (simp add: POST_def Let_def)

text \<open>
  Claim C2, as amended. For a tally with \<open>totalReleases = 0\<close> nothing is raised: each
  percentage is \<open>NaN\<close> (count 0) or an infinity, and the route answers normally. The
  gaps are not empty in general: they are the first three (or fewer) major genres, in
  the list's order, that are absent from the tally or whose entry has a negative count.
\<close>

theorem gaps_zero_total:
  assumes "totalReleases (genres b) = 0"
    and "\<not> falsy (consumerKey env)" "\<not> falsy (consumerSecret env)"
    and "\<not> falsy (accessToken env)" "\<not> falsy (accessTokenSecret env)"
  shows "map percentage (genrePercentages (genres b)) =
      map (\<lambda>g. if genre_count g = 0 then NaN else if 0 < genre_count g then PosInf else NegInf)
        (genres b) \<and>
    gaps (genres b) =
      take 3 (filter (\<lambda>genre. case tally (genres b) genre of None \<Rightarrow> True | Some c \<Rightarrow> c < 0)
                MAJOR_GENRES) \<and>
    (\<exists>resp. POST env (Some b) search = Inr resp \<and> body_gaps resp = gaps (genres b))"
proof (intro conjI)
  show "map percentage (genrePercentages (genres b)) =
      map (\<lambda>g. if genre_count g = 0 then NaN else if 0 < genre_count g then PosInf else NegInf)
        (genres b)"
    by (rule percentage_zero_total [OF assms(1)])
next
  have "is_gap (genres b) =
      (\<lambda>genre. case tally (genres b) genre of None \<Rightarrow> True | Some c \<Rightarrow> c < 0)"
    using is_gap_zero [OF assms(1)] by (intro ext)
  then show "gaps (genres b) =
      take 3 (filter (\<lambda>genre. case tally (genres b) genre of None \<Rightarrow> True | Some c \<Rightarrow> c < 0)
                MAJOR_GENRES)"
    by (simp add: gaps_def)
next
  show "\<exists>resp. POST env (Some b) search = Inr resp \<and> body_gaps resp = gaps (genres b)"
    using POST_ok [OF assms(2-5)] by simp
qed

theorem gaps_zero_total_witness:
  "totalReleases ex_rock_zero = 0 \<and>
   map percentage (genrePercentages ex_rock_zero) = [NaN] \<and>
   gaps ex_rock_zero = [''Electronic'', ''Jazz'', ''Hip Hop'']"
  using gaps_zero_total [of "\<lparr>genres = ex_rock_zero, ownedMasterIds = []\<rparr>" ex_env_auth
      ex_search_down]
  by (simp add: ex_rock_zero_def ex_env_auth_def falsy_def totalReleases_def tally_def
      MAJOR_GENRES_def)

text \<open>
  Claim C2 as stated fails: for the empty tally \<open>totalReleases\<close> is 0 and the gaps are
  the first three major genres.
\<close>

theorem gaps_empty_counterexample:
  "totalReleases [] = 0 \<and> gaps [] = [''Electronic'', ''Rock'', ''Jazz''] \<and>
   POST ex_env_auth (Some \<lparr>genres = [], ownedMasterIds = []\<rparr>) ex_search_down =
     Inr \<lparr>recommendations = [], analyzedGenres = [''Electronic'', ''Rock'', ''Jazz''],
          body_gaps = [''Electronic'', ''Rock'', ''Jazz'']\<rparr>"
proof -
  have g: "gaps [] = [''Electronic'', ''Rock'', ''Jazz'']"
    by (simp add: gaps_def is_gap_def genrePercentages_def MAJOR_GENRES_def)
  have t: "topGenres [] = []"
    by (simp add: topGenres_def genrePercentages_def)
  have s: "genresToSearch [] = [''Electronic'', ''Rock'', ''Jazz'']"
    by (simp add: genresToSearch_def g t new_Set_def set_add_def)
  show ?thesis
    by (simp add: POST_def Let_def g s ex_env_auth_def falsy_def totalReleases_def
        search_promise_def ex_search_down_def List.map_filter_simps)
qed

lemma prefix_take: "prefix xs zs \<Longrightarrow> length xs \<le> n \<Longrightarrow> prefix xs (take n zs)"
  by (auto simp: prefix_def)

lemma gaps_prefix_genresToSearch: "prefix (gaps gs) (genresToSearch gs)"
  unfolding genresToSearch_def
  by (intro prefix_take new_Set_append_prefix distinct_gaps) (use length_gaps [of gs] in simp)

text \<open>
  Claim C10. In every successful answer of the route, each genre of \<open>gaps\<close> is also in
  \<open>analyzedGenres\<close>: the gaps (at most 3) are the first entries of the selection
  (at most 4).
\<close>

theorem gaps_in_analyzedGenres:
  assumes "POST env body search = Inr resp"
  shows "set (body_gaps resp) \<subseteq> set (analyzedGenres resp) \<and>
    prefix (body_gaps resp) (analyzedGenres resp) \<and>
    length (body_gaps resp) \<le> 3 \<and> length (analyzedGenres resp) \<le> 4"
proof -
  from assms have "\<exists>gs. body_gaps resp = gaps gs \<and> analyzedGenres resp = genresToSearch gs"
    by (auto simp: POST_def Let_def split: if_splits option.splits)
  then obtain gs where
    resp: "body_gaps resp = gaps gs" "analyzedGenres resp = genresToSearch gs"
    by blast
  have p: "prefix (gaps gs) (genresToSearch gs)"
    by (rule gaps_prefix_genresToSearch)
  then have "set (gaps gs) \<subseteq> set (genresToSearch gs)"
    by (rule set_mono_prefix)
  moreover have "length (genresToSearch gs) \<le> 4" by (simp add: genresToSearch_def)
  ultimately show ?thesis using p length_gaps [of gs] by (simp add: resp)
qed

theorem gaps_in_analyzedGenres_witness:
  "POST ex_env_auth (Some \<lparr>genres = ex_rock, ownedMasterIds = []\<rparr>) ex_search_down =
     Inr \<lparr>recommendations = [], analyzedGenres = [''Electronic'', ''Jazz'', ''Hip Hop'', ''Rock''],
          body_gaps = [''Electronic'', ''Jazz'', ''Hip Hop'']\<rparr> \<and>
   set [''Electronic'', ''Jazz'', ''Hip Hop''] \<subseteq> set [''Electronic'', ''Jazz'', ''Hip Hop'', ''Rock'']"
proof -
  have g: "gaps ex_rock = [''Electronic'', ''Jazz'', ''Hip Hop'']"
    by (simp add: gaps_def is_gap_def genrePercentages_def MAJOR_GENRES_def ex_rock_def
        totalReleases_def js_div_def)
  have t: "topGenres ex_rock = [''Rock'']"
    by (simp add: topGenres_def genrePercentages_def MAJOR_GENRES_def ex_rock_def)
  have s: "genresToSearch ex_rock = [''Electronic'', ''Jazz'', ''Hip Hop'', ''Rock'']"
    by (simp add: genresToSearch_def g t new_Set_def set_add_def)
  have p: "POST ex_env_auth (Some \<lparr>genres = ex_rock, ownedMasterIds = []\<rparr>) ex_search_down =
     Inr \<lparr>recommendations = [], analyzedGenres = [''Electronic'', ''Jazz'', ''Hip Hop'', ''Rock''],
          body_gaps = [''Electronic'', ''Jazz'', ''Hip Hop'']\<rparr>"
    by (simp add: POST_def Let_def g s ex_env_auth_def falsy_def
        search_promise_def ex_search_down_def List.map_filter_simps)
  show ?thesis using gaps_in_analyzedGenres [OF p] p by simp
qed

section \<open>Properties of the title parser\<close>

lemma js_split_not_Nil: "js_split sep s \<noteq> []"
  by (subst js_split.simps) (simp split: list.splits)

lemma js_split_no_occurrence:
  "sep \<noteq> [] \<Longrightarrow> first_occurrence sep s = None \<Longrightarrow> js_split sep s = [s]"
proof (induction s)
  case Nil
  then show ?case by (subst js_split.simps) simp
next
  case (Cons c cs)
  from Cons.prems have np: "\<not> prefix sep (c # cs)" and none: "first_occurrence sep cs = None"
    by (auto split: if_splits)
  have "js_split sep cs = [cs]" using Cons.IH Cons.prems(1) none by simp
  then show ?case using np by (subst js_split.simps) simp
qed

lemma js_split_first_occurrence:
  "sep \<noteq> [] \<Longrightarrow> first_occurrence sep s = Some i \<Longrightarrow>
   js_split sep s = take i s # js_split sep (drop (i + length sep) s)"
proof (induction s arbitrary: i)
  case Nil
  then show ?case by simp
next
  case (Cons c cs)
  show ?case
  proof (cases "prefix sep (c # cs)")
    case True
    then have "i = 0" using Cons.prems by simp
    then show ?thesis using True Cons.prems(1) by (subst js_split.simps) simp
  next
    case False
    then obtain i' where i': "first_occurrence sep cs = Some i'" "i = Suc i'"
      using Cons.prems by auto
    have "js_split sep cs = take i' cs # js_split sep (drop (i' + length sep) cs)"
      using Cons.IH [OF Cons.prems(1) i'(1)] .
    then show ?thesis using False i'(2) by (subst js_split.simps) simp
  qed
qed

lemma js_join_Cons_Cons: "js_join sep ((c # p) # ps) = c # js_join sep (p # ps)"
  by (cases ps) simp_all

lemma js_join_split: "sep \<noteq> [] \<Longrightarrow> js_join sep (js_split sep s) = s"
proof (induction sep s rule: js_split.induct)
  case (1 sep s)
  show ?case
  proof (cases "s = []")
    case True
    then show ?thesis by (subst js_split.simps) simp
  next
    case ne: False
    show ?thesis
    proof (cases "prefix sep s")
      case True
      then obtain rest where s: "s = sep @ rest" by (auto simp: prefix_def)
      have ih: "js_join sep (js_split sep (drop (length sep) s)) = drop (length sep) s"
        using "1.IH"(1) [OF ne] True "1.prems" by simp
      obtain p ps where sp: "js_split sep (drop (length sep) s) = p # ps"
        using js_split_not_Nil [of sep "drop (length sep) s"] by (cases "js_split sep (drop (length sep) s)") auto
      have "js_split sep s = [] # p # ps"
        using ne True "1.prems" sp by (subst js_split.simps) simp
      then show ?thesis using ih sp s by simp
    next
      case False
      obtain p ps where sp: "js_split sep (tl s) = p # ps"
        using js_split_not_Nil [of sep "tl s"] by (cases "js_split sep (tl s)") auto
      have ih: "js_join sep (js_split sep (tl s)) = tl s"
        using "1.IH"(2) [OF ne] False "1.prems" by simp
      have "js_split sep s = (hd s # p) # ps"
        using ne False sp by (subst js_split.simps) simp
      then show ?thesis using ih sp ne by (simp add: js_join_Cons_Cons)
    qed
  qed
qed

lemma first_occurrence_sound:
  "first_occurrence sep s = Some i \<Longrightarrow>
   prefix sep (drop i s) \<and> i \<le> length s \<and> (\<forall>j<i. \<not> prefix sep (drop j s))"
proof (induction s arbitrary: i)
  case Nil
  then show ?case by (simp split: if_splits)
next
  case (Cons c cs)
  show ?case
  proof (cases "prefix sep (c # cs)")
    case True
    then show ?thesis using Cons.prems by simp
  next
    case False
    then obtain i' where i': "first_occurrence sep cs = Some i'" "i = Suc i'"
      using Cons.prems by auto
    from Cons.IH [OF i'(1)] have ih: "prefix sep (drop i' cs)" "i' \<le> length cs"
      "\<forall>j<i'. \<not> prefix sep (drop j cs)" by simp_all
    have "\<not> prefix sep (drop j (c # cs))" if "j < i" for j
      using that False ih(3) i'(2) by (cases j) simp_all
    then show ?thesis using ih i'(2) by simp
  qed
qed

lemma first_occurrence_complete:
  "first_occurrence sep s = None \<Longrightarrow> j \<le> length s \<Longrightarrow> \<not> prefix sep (drop j s)"
proof (induction s arbitrary: j)
  case Nil
  then show ?case by (simp split: if_splits)
next
  case (Cons c cs)
  then show ?case by (cases j) (auto split: if_splits)
qed

text \<open>
  Claim C5, as amended. The combined string is split at the first \<open>" - "\<close>, at
  position \<open>i\<close>. The artist is the part before it, or \<open>"Unknown Artist"\<close> when that
  part is empty. The title is the part after it (the remainder, rejoined), or the raw
  string when that part is empty. With no separator, artist and title are both the raw
  string; only for the empty string are they \<open>"Unknown Artist"\<close> and \<open>"Unknown"\<close>.
\<close>

theorem format_result_artist_title:
  "(case first_occurrence '' - '' (sr_title r) of
      None \<Rightarrow>
        rel_artist (format_result r) =
          (if sr_title r = [] then ''Unknown Artist'' else sr_title r) \<and>
        rel_title (format_result r) =
          (if sr_title r = [] then ''Unknown'' else sr_title r)
    | Some i \<Rightarrow>
        rel_artist (format_result r) =
          (if i = 0 then ''Unknown Artist'' else take i (sr_title r)) \<and>
        rel_title (format_result r) =
          (if drop (i + 3) (sr_title r) = [] then sr_title r else drop (i + 3) (sr_title r)))"
proof (cases "first_occurrence '' - '' (sr_title r)")
  case None
  have "js_split '' - '' (sr_title r) = [sr_title r]"
    using None by (intro js_split_no_occurrence) simp_all
  then show ?thesis using None by (simp add: format_result_def Let_def)
next
  case (Some i)
  have sp: "js_split '' - '' (sr_title r) =
      take i (sr_title r) # js_split '' - '' (drop (i + 3) (sr_title r))"
    using js_split_first_occurrence [of "'' - ''" "sr_title r" i] Some
    by (simp add: numeral_3_eq_3)
  have jn: "js_join '' - '' (js_split '' - '' (drop (i + 3) (sr_title r))) = drop (i + 3) (sr_title r)"
    by (intro js_join_split) simp
  have le: "i \<le> length (sr_title r)" "prefix '' - '' (drop i (sr_title r))"
    using first_occurrence_sound [OF Some] by simp_all
  then have lt: "i < length (sr_title r)" by (cases "i = length (sr_title r)") auto
  have tk: "(take i (sr_title r) = []) = (i = 0)" using lt by auto
  have ne: "sr_title r \<noteq> []" using lt by auto
  show ?thesis using Some by (simp add: format_result_def Let_def sp jn tk ne)
qed

theorem format_result_artist_title_witness:
  "first_occurrence '' - '' (sr_title ex_kind_of_blue) = Some 11 \<and>
   rel_artist (format_result ex_kind_of_blue) = ''Miles Davis'' \<and>
   rel_title (format_result ex_kind_of_blue) = ''Kind Of Blue''"
  using format_result_artist_title [of ex_kind_of_blue]
  by (simp add: ex_kind_of_blue_def)

text \<open>
  Claim C5 as stated fails: \<open>"Thriller"\<close> has no separator, and its artist is
  \<open>"Thriller"\<close>, not \<open>"Unknown Artist"\<close>.
\<close>

theorem format_result_no_separator_counterexample:
  "first_occurrence '' - '' (sr_title ex_thriller) = None \<and>
   rel_artist (format_result ex_thriller) = ''Thriller'' \<and>
   rel_artist (format_result ex_thriller) \<noteq> ''Unknown Artist'' \<and>
   rel_title (format_result ex_thriller) = ''Thriller''"
  by (simp add: ex_thriller_def format_result_def Let_def js_split.simps)

section \<open>Properties of the comparison and of the trade matching\<close>

lemma set_overlapMasterIds:
  "set (overlapMasterIds A B) =
     {i. i \<noteq> 0 \<and> i \<in> release_master ` set A \<and> i \<in> release_master ` set B}"
  by (auto simp: overlapMasterIds_def myMasterIds_def friendMasterIds_def set_new_Set)

lemma overlap_iff:
  "r \<in> set (overlap A B) \<longleftrightarrow>
     r \<in> set A \<and> release_master r \<noteq> 0 \<and> release_master r \<in> release_master ` set B"
  by (auto simp: overlap_def set_overlapMasterIds)

lemma onlyMe_iff:
  "r \<in> set (onlyMe A B) \<longleftrightarrow>
     r \<in> set A \<and> release_master r \<noteq> 0 \<and> release_master r \<notin> release_master ` set B"
  by (auto simp: onlyMe_def set_overlapMasterIds)

lemma onlyFriend_iff:
  "r \<in> set (onlyFriend A B) \<longleftrightarrow>
     r \<in> set B \<and> release_master r \<noteq> 0 \<and> release_master r \<notin> release_master ` set A"
  by (auto simp: onlyFriend_def set_overlapMasterIds)

lemma overlap_master_iff:
  "(\<exists>a \<in> set (overlap A B). release_master a = m) \<longleftrightarrow>
     m \<noteq> 0 \<and> m \<in> release_master ` set A \<and> m \<in> release_master ` set B"
  unfolding Bex_def overlap_iff by force

lemma Math_round_of_int: "Math_round (rat_of_int k) = k"
proof -
  have "\<lfloor>rat_of_int k + 1 / 2\<rfloor> = k" by (rule floor_unique) simp_all
  then show ?thesis by (simp add: Math_round_def)
qed

lemma Math_round_numeral: "Math_round (numeral n) = numeral n" "Math_round 0 = 0"
  using Math_round_of_int [of "numeral n"] Math_round_of_int [of 0] by simp_all

subsection \<open>Rounding to a double\<close>

text \<open>
  \<open>to_double\<close> gives a number with a significand of 53 binary digits, in the binade
  of its argument and at most half a unit in the last place away from it: a nearest
  double.
\<close>

lemma bit_length_bounds:
  "0 < n \<Longrightarrow> 2 ^ (bit_length n - 1) \<le> n \<and> n < 2 ^ bit_length n"
proof (induction n rule: bit_length.induct)
  case (1 n)
  show ?case
  proof (cases "n div 2 \<le> 0")
    case True
    then have "n = 1" using "1.prems" by simp
    then show ?thesis by (simp add: bit_length.simps)
  next
    case False
    then have pos: "0 < n div 2" by simp
    have ih: "2 ^ (bit_length (n div 2) - 1) \<le> n div 2" "n div 2 < 2 ^ bit_length (n div 2)"
      using "1.IH" "1.prems" pos by simp_all
    have k: "0 < bit_length (n div 2)" using pos by (subst bit_length.simps) simp
    have bl: "bit_length n = Suc (bit_length (n div 2))"
      using "1.prems" by (subst bit_length.simps) simp
    have "(2::int) ^ bit_length (n div 2) = 2 * 2 ^ (bit_length (n div 2) - 1)"
      using k by (cases "bit_length (n div 2)") simp_all
    then have lo: "2 ^ bit_length (n div 2) \<le> n" using ih(1) by linarith
    have hi: "n < 2 * 2 ^ bit_length (n div 2)" using ih(2) by linarith
    show ?thesis using lo hi by (simp add: bl)
  qed
qed

lemma pow2_powi: "pow2 k = 2 powi k"
  by (simp add: pow2_def power_int_def inverse_eq_divide power_one_over)

lemma pow2_pos: "0 < pow2 k"
  by (simp add: pow2_powi)

lemma pow2_add: "pow2 (a + b) = pow2 a * pow2 b"
  by (simp add: pow2_powi power_int_add)

lemma pow2_nat: "pow2 (int k) = 2 ^ k"
  by (simp add: pow2_def)

lemma pow2_Suc: "pow2 (k + 1) = 2 * pow2 k"
  using pow2_add [of k 1] by (simp add: pow2_def)

lemma round_half_even_close: "\<bar>rat_of_int (round_half_even x) - x\<bar> \<le> 1 / 2"
  unfolding round_half_even_def Let_def by (auto simp: abs_if) linarith+

lemma round_half_even_mono_bounds:
  assumes "rat_of_int a \<le> x" "x \<le> rat_of_int b"
  shows "a \<le> round_half_even x \<and> round_half_even x \<le> b"
proof -
  have f: "a \<le> \<lfloor>x\<rfloor>" using assms(1) by (simp add: le_floor_iff)
  have "x = rat_of_int b \<or> x < rat_of_int b" using assms(2) by auto
  then show ?thesis
  proof
    assume "x = rat_of_int b"
    then show ?thesis using f by (simp add: round_half_even_def)
  next
    assume "x < rat_of_int b"
    then have "\<lfloor>x\<rfloor> < b" by (simp add: floor_less_iff)
    then show ?thesis using f by (auto simp: round_half_even_def Let_def)
  qed
qed


lemma pow2_pred: "0 < k \<Longrightarrow> pow2 (int k - 1) = 2 ^ (k - 1)"
  by (cases k) (simp_all add: pow2_def)

lemma of_int_le_pow2: "((2::rat) ^ k \<le> rat_of_int n) = (2 ^ k \<le> n)"
  using of_int_le_iff [of "2 ^ k" n, where ?'a = rat] by simp

lemma of_int_less_pow2: "(rat_of_int n < (2::rat) ^ k) = (n < 2 ^ k)"
  using of_int_less_iff [of n "2 ^ k", where ?'a = rat] by simp

lemma exponent_bounds:
  assumes "0 < q"
    and "n = fst (quotient_of q)" "d = snd (quotient_of q)"
    and "t = int (bit_length n) - int (bit_length d)"
    and "e = (if pow2 t \<le> q then t else t - 1)"
  shows "pow2 e \<le> q \<and> q < pow2 (e + 1)"
proof -
  have qd: "quotient_of q = (n, d)" using assms(2,3) by simp
  have d: "0 < d" using quotient_of_denom_pos [OF qd] .
  have q: "q = rat_of_int n / rat_of_int d" using quotient_of_div [OF qd] .
  have n: "0 < n" using assms(1) d by (simp add: q zero_less_divide_iff)
  from bit_length_bounds [OF n] have nb: "2 ^ (bit_length n - 1) \<le> n" "n < 2 ^ bit_length n"
    by simp_all
  from bit_length_bounds [OF d] have db: "2 ^ (bit_length d - 1) \<le> d" "d < 2 ^ bit_length d"
    by simp_all
  have bn: "0 < bit_length n" using n by (subst bit_length.simps) simp
  have bd: "0 < bit_length d" using d by (subst bit_length.simps) simp
  have rn: "pow2 (int (bit_length n) - 1) \<le> rat_of_int n" "rat_of_int n < pow2 (int (bit_length n))"
    using nb bn by (simp_all add: pow2_pred pow2_nat of_int_le_pow2 of_int_less_pow2)
  have rd: "pow2 (int (bit_length d) - 1) \<le> rat_of_int d" "rat_of_int d < pow2 (int (bit_length d))"
    using db bd by (simp_all add: pow2_pred pow2_nat of_int_le_pow2 of_int_less_pow2)
  have dpos: "0 < rat_of_int d" using d by simp
  have up: "q < pow2 (t + 1)"
  proof -
    have "pow2 (t + 1) * pow2 (int (bit_length d) - 1) = pow2 (int (bit_length n))"
      unfolding pow2_add [symmetric] assms(4) by simp
    then have "rat_of_int n < pow2 (t + 1) * pow2 (int (bit_length d) - 1)" using rn(2) by simp
    also have "\<dots> \<le> pow2 (t + 1) * rat_of_int d"
      using rd(1) pow2_pos [of "t + 1"] by (simp add: mult_left_mono)
    finally show ?thesis using dpos by (simp add: q pos_divide_less_eq)
  qed
  have low: "pow2 (t - 1) < q"
  proof -
    have "pow2 (t - 1) * pow2 (int (bit_length d)) = pow2 (int (bit_length n) - 1)"
      unfolding pow2_add [symmetric] assms(4) by simp
    moreover have "pow2 (t - 1) * rat_of_int d < pow2 (t - 1) * pow2 (int (bit_length d))"
      using rd(2) pow2_pos [of "t - 1"] by (simp add: mult_strict_left_mono)
    ultimately have "pow2 (t - 1) * rat_of_int d < rat_of_int n" using rn(1) by simp
    then show ?thesis using dpos by (simp add: q pos_less_divide_eq)
  qed
  show ?thesis
  proof (cases "pow2 t \<le> q")
    case True
    then show ?thesis using up assms(5) by simp
  next
    case False
    then have "e = t - 1" "q < pow2 t" using assms(5) by simp_all
    then show ?thesis using low by simp
  qed
qed

lemma to_double_nearest:
  assumes "0 < q"
  shows "\<exists>m e. to_double q = rat_of_int m * pow2 (e - 52) \<and>
      2 ^ 52 \<le> m \<and> m \<le> 2 ^ 53 \<and>
      pow2 e \<le> q \<and> q < pow2 (e + 1) \<and>
      \<bar>to_double q - q\<bar> \<le> pow2 (e - 53)"
proof -
  define n where "n = fst (quotient_of q)"
  define d where "d = snd (quotient_of q)"
  define t where "t = int (bit_length n) - int (bit_length d)"
  define e where "e = (if pow2 t \<le> q then t else t - 1)"
  define p where "p = pow2 (e - 52)"
  define m where "m = round_half_even (q / p)"
  have td: "to_double q = rat_of_int m * p"
    using assms by (simp add: to_double_def Let_def n_def d_def t_def e_def p_def m_def)
  have eb: "pow2 e \<le> q" "q < pow2 (e + 1)"
    using exponent_bounds [OF assms n_def d_def t_def e_def] by simp_all
  have ppos: "0 < p" by (simp add: p_def pow2_pos)
  have pe: "pow2 e = 2 ^ 52 * p" "pow2 (e + 1) = 2 ^ 53 * p"
  proof -
    have "pow2 e = pow2 52 * pow2 (e - 52)" unfolding pow2_add [symmetric] by simp
    then show "pow2 e = 2 ^ 52 * p" by (simp add: p_def pow2_def)
    have "53 + (e - 52) = e + 1" by simp
    then have "pow2 (e + 1) = pow2 53 * pow2 (e - 52)"
      using pow2_add [of 53 "e - 52"] by (simp only:)
    then show "pow2 (e + 1) = 2 ^ 53 * p" by (simp add: p_def pow2_def)
  qed
  have x: "rat_of_int (2 ^ 52) \<le> q / p" "q / p \<le> rat_of_int (2 ^ 53)"
    using eb ppos by (simp_all add: pe pos_le_divide_eq pos_divide_le_eq)
  have mb: "2 ^ 52 \<le> m" "m \<le> 2 ^ 53"
    using round_half_even_mono_bounds [OF x] by (simp_all add: m_def)
  have "rat_of_int m * p - q = (rat_of_int m - q / p) * p"
    using ppos by (simp add: left_diff_distrib)
  then have "\<bar>rat_of_int m * p - q\<bar> = \<bar>rat_of_int m - q / p\<bar> * p"
    using ppos by (simp only: abs_mult abs_of_pos)
  also have "\<dots> \<le> 1 / 2 * p"
    using round_half_even_close [of "q / p"] ppos by (simp add: m_def mult_right_mono)
  also have "1 / 2 * p = pow2 (e - 53)"
  proof -
    have "pow2 (e - 52) = pow2 1 * pow2 (e - 53)" unfolding pow2_add [symmetric] by simp
    then show ?thesis by (simp add: p_def pow2_def)
  qed
  finally have err: "\<bar>to_double q - q\<bar> \<le> pow2 (e - 53)" by (simp add: td)
  show ?thesis using td mb eb err unfolding p_def by blast
qed

text \<open>
  Some doubles: whole numbers and \<open>1/2\<close> are exact, \<open>1/10\<close> is not, and a tie goes
  to the even significand. The second group is the score of 23 shared masters out of
  40, and of 29 out of 200: the exact percentages 57.5 and 14.5 would round to 58 and 15.
\<close>

lemma to_double_exact:
  "to_double 0 = 0" "to_double 1 = 1" "to_double (1 / 2) = 1 / 2"
  "to_double 50 = 50" "to_double 100 = 100"
  by code_simp+

lemma to_double_inexact:
  "to_double (1 / 10) = 3602879701896397 / 36028797018963968"
  "to_double (2 ^ 53 + 1) = 2 ^ 53" "to_double (2 ^ 53 + 3) = 2 ^ 53 + 4"
  by code_simp+

lemma Math_round_double_percent:
  "Math_round (to_double (to_double (23 / 40) * 100)) = 57"
  "Math_round (to_double (to_double (29 / 200) * 100)) = 14"
  by code_simp+

subsection \<open>The three lists and the score\<close>

lemma length_filter_split:
  "(\<And>x. P x \<Longrightarrow> Q x) \<Longrightarrow>
   length (filter P xs) + length (filter (\<lambda>x. Q x \<and> \<not> P x) xs) = length (filter Q xs)"
  by (induction xs) auto

lemma length_overlap_onlyMe:
  "length (overlap A B) + length (onlyMe A B) = length (filter (\<lambda>r. release_master r \<noteq> 0) A)"
  unfolding overlap_def onlyMe_def
  by (rule length_filter_split) (simp add: set_overlapMasterIds)

text \<open>
  Claim C3, as amended. The three lists are filters: \<open>overlap\<close> holds my items with a
  non-zero master id that the friend's collection has too, \<open>onlyMe\<close> my items with a
  non-zero master id that it has not, and \<open>onlyFriend\<close> the friend's items with a
  non-zero master id that my collection has not. Hence \<open>overlap\<close> is disjoint from
  \<open>onlyMe\<close> and from \<open>onlyFriend\<close>. An item of mine with a non-zero master id is
  in exactly one of \<open>overlap\<close> and \<open>onlyMe\<close>, and not in \<open>onlyFriend\<close>. An item
  of the friend's with a non-zero master id is in \<open>onlyFriend\<close> exactly when its
  master id is not shared with my collection; when it is shared, \<open>overlap\<close> holds an
  item of mine with that master id, and the friend's item is in no list unless it is
  also an item of mine (then it is in \<open>overlap\<close>). \<open>|overlap| + |onlyMe|\<close> is the
  number of my items with a non-zero master id, and an item with master id 0 is in none
  of the three lists.
\<close>

theorem comparison_partitions:
  "overlap A B =
     filter (\<lambda>r. release_master r \<noteq> 0 \<and> release_master r \<in> release_master ` set B) A \<and>
   onlyMe A B =
     filter (\<lambda>r. release_master r \<noteq> 0 \<and> release_master r \<notin> release_master ` set B) A \<and>
   onlyFriend A B =
     filter (\<lambda>r. release_master r \<noteq> 0 \<and> release_master r \<notin> release_master ` set A) B \<and>
   set (overlap A B) \<inter> set (onlyMe A B) = {} \<and>
   set (overlap A B) \<inter> set (onlyFriend A B) = {} \<and>
   (\<forall>r \<in> set A. release_master r \<noteq> 0 \<longrightarrow>
      (r \<in> set (overlap A B)) \<noteq> (r \<in> set (onlyMe A B)) \<and> r \<notin> set (onlyFriend A B)) \<and>
   (\<forall>r \<in> set B. release_master r \<noteq> 0 \<longrightarrow>
      (r \<in> set (onlyFriend A B)) \<noteq> (\<exists>a \<in> set (overlap A B). release_master a = release_master r) \<and>
      r \<notin> set (onlyMe A B)) \<and>
   (\<forall>r \<in> set B. release_master r \<noteq> 0 \<longrightarrow>
      (r \<in> set (onlyFriend A B)) = (release_master r \<notin> release_master ` set A) \<and>
      (r \<in> set (overlap A B)) = (r \<in> set A)) \<and>
   set (overlap A B) \<subseteq> set A \<and>
   length (overlap A B) + length (onlyMe A B) = length (filter (\<lambda>r. release_master r \<noteq> 0) A) \<and>
   (\<forall>r. release_master r = 0 \<longrightarrow>
      r \<notin> set (overlap A B) \<and> r \<notin> set (onlyMe A B) \<and> r \<notin> set (onlyFriend A B))"
proof (intro conjI)
  have in_ids: "(m \<in> set (overlapMasterIds A B)) =
      (m \<noteq> 0 \<and> m \<in> release_master ` set A \<and> m \<in> release_master ` set B)" for m
    by (simp add: set_overlapMasterIds)
  show "overlap A B =
     filter (\<lambda>r. release_master r \<noteq> 0 \<and> release_master r \<in> release_master ` set B) A"
    unfolding overlap_def by (rule filter_cong) (auto simp: in_ids)
  show "onlyMe A B =
     filter (\<lambda>r. release_master r \<noteq> 0 \<and> release_master r \<notin> release_master ` set B) A"
    unfolding onlyMe_def by (rule filter_cong) (auto simp: in_ids)
  show "onlyFriend A B =
     filter (\<lambda>r. release_master r \<noteq> 0 \<and> release_master r \<notin> release_master ` set A) B"
    unfolding onlyFriend_def by (rule filter_cong) (auto simp: in_ids)
  show "set (overlap A B) \<inter> set (onlyMe A B) = {}"
    by (auto simp: overlap_iff onlyMe_iff)
  show "set (overlap A B) \<inter> set (onlyFriend A B) = {}"
    by (auto simp: overlap_iff onlyFriend_iff)
  show "\<forall>r \<in> set A. release_master r \<noteq> 0 \<longrightarrow>
      (r \<in> set (overlap A B)) \<noteq> (r \<in> set (onlyMe A B)) \<and> r \<notin> set (onlyFriend A B)"
    by (auto simp: overlap_iff onlyMe_iff onlyFriend_iff)
  show "\<forall>r \<in> set B. release_master r \<noteq> 0 \<longrightarrow>
      (r \<in> set (onlyFriend A B)) \<noteq> (\<exists>a \<in> set (overlap A B). release_master a = release_master r) \<and>
      r \<notin> set (onlyMe A B)"
    unfolding overlap_master_iff by (auto simp: onlyMe_iff onlyFriend_iff)
  show "\<forall>r \<in> set B. release_master r \<noteq> 0 \<longrightarrow>
      (r \<in> set (onlyFriend A B)) = (release_master r \<notin> release_master ` set A) \<and>
      (r \<in> set (overlap A B)) = (r \<in> set A)"
    by (auto simp: overlap_iff onlyFriend_iff)
  show "set (overlap A B) \<subseteq> set A"
    by (auto simp: overlap_iff)
  show "length (overlap A B) + length (onlyMe A B) = length (filter (\<lambda>r. release_master r \<noteq> 0) A)"
    by (rule length_overlap_onlyMe)
  show "\<forall>r. release_master r = 0 \<longrightarrow>
      r \<notin> set (overlap A B) \<and> r \<notin> set (onlyMe A B) \<and> r \<notin> set (onlyFriend A B)"
    by (simp add: overlap_iff onlyMe_iff onlyFriend_iff)
qed

lemma release_master_mk [simp]: "release_master (mk_release i m) = m"
  by (simp add: release_master_def mk_release_def mk_info_def)

lemma want_master_mk [simp]: "want_master (mk_want i m) = m"
  by (simp add: want_master_def mk_want_def mk_info_def)

lemma mk_release_eq [simp]: "(mk_release i m = mk_release j n) = (i = j \<and> m = n)"
  by (auto simp: mk_release_def mk_info_def)

lemma mk_want_eq [simp]: "(mk_want i m = mk_want j n) = (i = j \<and> m = n)"
  by (auto simp: mk_want_def mk_info_def)

lemmas compare_defs = overlap_def onlyMe_def onlyFriend_def overlapMasterIds_def
  myMasterIds_def friendMasterIds_def totalUnique_def new_Set_def set_add_def

theorem comparison_partitions_witness:
  "overlap [mk_release 1 5, mk_release 2 0, mk_release 3 6] [mk_release 4 5, mk_release 5 7]
     = [mk_release 1 5] \<and>
   onlyMe [mk_release 1 5, mk_release 2 0, mk_release 3 6] [mk_release 4 5, mk_release 5 7]
     = [mk_release 3 6] \<and>
   onlyFriend [mk_release 1 5, mk_release 2 0, mk_release 3 6] [mk_release 4 5, mk_release 5 7]
     = [mk_release 5 7] \<and>
   length [mk_release 1 5] + length [mk_release 3 6] =
     length (filter (\<lambda>r. release_master r \<noteq> 0) [mk_release 1 5, mk_release 2 0, mk_release 3 6])"
  using comparison_partitions [of "[mk_release 1 5, mk_release 2 0, mk_release 3 6]"
      "[mk_release 4 5, mk_release 5 7]"]
  by (simp add: compare_defs)

text \<open>
  Claim C3 as stated fails for an item of the friend's: my release 1 and the friend's
  release 2 share master 5; the friend's release has a master id and is in none of
  \<open>overlap\<close>, \<open>onlyMe\<close>, \<open>onlyFriend\<close>.
\<close>

theorem comparison_friend_item_counterexample:
  "release_master (mk_release 2 5) \<noteq> 0 \<and>
   overlap [mk_release 1 5] [mk_release 2 5] = [mk_release 1 5] \<and>
   onlyMe [mk_release 1 5] [mk_release 2 5] = [] \<and>
   onlyFriend [mk_release 1 5] [mk_release 2 5] = [] \<and>
   mk_release 2 5 \<notin> set (overlap [mk_release 1 5] [mk_release 2 5]) \<and>
   mk_release 2 5 \<notin> set (onlyFriend [mk_release 1 5] [mk_release 2 5])"
  by (simp add: compare_defs)

text \<open>
  Claim C4 fails on the code. Comparing the collection "one release of master 7, one
  release without master" with itself gives 50, not 100: \<open>overlapMasterIds\<close> drops
  the master id 0 (\<open>id && ...\<close>), but \<open>totalUnique\<close> counts it.
\<close>

theorem compatibilityScore_zero_master:
  "compatibilityScore [mk_release 1 7, mk_release 2 0] [mk_release 1 7, mk_release 2 0] = 50"
  by (simp add: compatibilityScore_def compare_defs to_double_exact Math_round_numeral)

lemma new_Set_distinct_id: "distinct xs \<Longrightarrow> new_Set xs = xs"
  using foldl_set_add_fresh [of "[]" xs] by (simp add: new_Set_def)

text \<open>
  Where every release has a master id, comparing a non-empty collection with itself does
  give 100.
\<close>

theorem compatibilityScore_self:
  assumes "A \<noteq> []" and "\<forall>r \<in> set A. release_master r \<noteq> 0"
  shows "compatibilityScore A A = 100"
proof -
  let ?ids = "new_Set (map release_master A)"
  have nz: "\<forall>i \<in> set ?ids. i \<noteq> 0" using assms(2) by (auto simp: set_new_Set)
  have "filter (\<lambda>i. i \<noteq> 0 \<and> i \<in> set ?ids) ?ids = ?ids"
    using nz by (simp add: filter_id_conv)
  then have ov: "overlapMasterIds A A = ?ids"
    by (simp add: overlapMasterIds_def myMasterIds_def friendMasterIds_def
        new_Set_distinct_id distinct_new_Set)
  have tu: "totalUnique A A = length ?ids"
    by (simp add: totalUnique_def myMasterIds_def friendMasterIds_def length_new_Set set_new_Set)
  have "set ?ids \<noteq> {}" using assms(1) by (simp add: set_new_Set)
  then have pos: "0 < length ?ids" by auto
  show ?thesis
    using pos by (simp add: compatibilityScore_def ov tu to_double_exact Math_round_numeral)
qed

theorem compatibilityScore_self_witness:
  "[mk_release 1 7, mk_release 2 8] \<noteq> [] \<and>
   compatibilityScore [mk_release 1 7, mk_release 2 8] [mk_release 1 7, mk_release 2 8] = 100"
  using compatibilityScore_self [of "[mk_release 1 7, mk_release 2 8]"] by simp

subsection \<open>Trade matching\<close>

lemma trade_matches_releases:
  "map release (trade_matches collection wants) =
     filter (\<lambda>r. release_master r \<noteq> 0 \<and> (\<exists>w \<in> set wants. want_master w = release_master r))
       collection"
proof -
  have "(release_master r \<in> set (new_Set (filter (\<lambda>i. i \<noteq> 0) (map want_master wants)))) =
      (release_master r \<noteq> 0 \<and> (\<exists>w \<in> set wants. want_master w = release_master r))" for r
    by (force simp: set_new_Set)
  then show ?thesis by (simp add: trade_matches_def Let_def comp_def)
qed

lemma trade_matches_matchedWant:
  assumes "opp \<in> set (trade_matches collection wants)"
  shows "matchedWant opp = find (\<lambda>w. want_master w = release_master (release opp)) wants \<and>
    release_master (release opp) \<noteq> 0 \<and>
    (\<exists>w \<in> set wants. want_master w = release_master (release opp))"
  using assms by (auto simp: trade_matches_def Let_def set_new_Set)

lemma find_first_index:
  assumes "\<exists>w \<in> set ws. P w"
  shows "\<exists>k<length ws. find P ws = Some (ws ! k) \<and> P (ws ! k) \<and> (\<forall>j<k. \<not> P (ws ! j))"
proof -
  from assms obtain w where "find P ws = Some w"
    by (cases "find P ws") (auto simp: find_None_iff)
  then show ?thesis by (auto simp: find_Some_iff)
qed

text \<open>
  Claim C8. With the friend's wantlist fetched, \<open>youCanOffer\<close> lists my items, in
  order, that have a master id (0 is "no master id") found in some entry of the wantlist:
  an item of mine is offered if and only if so. Each opportunity pairs its item with the
  first entry of the wantlist, in wantlist order, that has the item's master id.
\<close>

theorem iOffer_membership:
  assumes "iOffer = fst (trade_opportunities myCollection friendCollection
      (Ok_json (Some theirWantlist)) myWantlist)"
  shows "map release iOffer =
      filter (\<lambda>i. release_master i \<noteq> 0 \<and>
                  (\<exists>w \<in> set theirWantlist. want_master w = release_master i)) myCollection \<and>
    (\<forall>i \<in> set myCollection.
       (i \<in> release ` set iOffer) =
       (release_master i \<noteq> 0 \<and> (\<exists>w \<in> set theirWantlist. want_master w = release_master i))) \<and>
    (\<forall>opp \<in> set iOffer. \<exists>k<length theirWantlist.
       matchedWant opp = Some (theirWantlist ! k) \<and>
       want_master (theirWantlist ! k) = release_master (release opp) \<and>
       (\<forall>j<k. want_master (theirWantlist ! j) \<noteq> release_master (release opp)))"
proof -
  have io: "iOffer = trade_matches myCollection theirWantlist"
    using assms by (simp add: trade_opportunities_def wants_or_empty_def)
  have m: "map release iOffer =
      filter (\<lambda>i. release_master i \<noteq> 0 \<and>
                  (\<exists>w \<in> set theirWantlist. want_master w = release_master i)) myCollection"
    unfolding io by (rule trade_matches_releases)
  have "release ` set iOffer = set (map release iOffer)" by simp
  then have s: "\<forall>i \<in> set myCollection.
       (i \<in> release ` set iOffer) =
       (release_master i \<noteq> 0 \<and> (\<exists>w \<in> set theirWantlist. want_master w = release_master i))"
    unfolding m by simp
  have f: "\<exists>k<length theirWantlist.
       matchedWant opp = Some (theirWantlist ! k) \<and>
       want_master (theirWantlist ! k) = release_master (release opp) \<and>
       (\<forall>j<k. want_master (theirWantlist ! j) \<noteq> release_master (release opp))"
    if "opp \<in> set iOffer" for opp
  proof -
    from that have mw: "matchedWant opp =
        find (\<lambda>w. want_master w = release_master (release opp)) theirWantlist"
      and ex: "\<exists>w \<in> set theirWantlist. want_master w = release_master (release opp)"
      using trade_matches_matchedWant [of opp myCollection theirWantlist] io by simp_all
    from find_first_index [OF ex] show ?thesis by (simp add: mw)
  qed
  show ?thesis using m s f by blast
qed

lemmas trade_defs = trade_opportunities_def theyCanOffer_of_def trade_matches_def
  wants_or_empty_def new_Set_def set_add_def

theorem iOffer_membership_witness:
  "fst (trade_opportunities [mk_release 1 5, mk_release 2 0, mk_release 3 6] []
     (Ok_json (Some [mk_want 10 0, mk_want 11 6, mk_want 12 6])) Not_ok) =
     [\<lparr>release = mk_release 3 6, matchedWant = Some (mk_want 11 6)\<rparr>] \<and>
   map release [\<lparr>release = mk_release 3 6, matchedWant = Some (mk_want 11 6)\<rparr>] =
     filter (\<lambda>i. release_master i \<noteq> 0 \<and>
                 (\<exists>w \<in> set [mk_want 10 0, mk_want 11 6, mk_want 12 6].
                    want_master w = release_master i))
       [mk_release 1 5, mk_release 2 0, mk_release 3 6]"
proof -
  have e: "fst (trade_opportunities [mk_release 1 5, mk_release 2 0, mk_release 3 6] []
     (Ok_json (Some [mk_want 10 0, mk_want 11 6, mk_want 12 6])) Not_ok) =
     [\<lparr>release = mk_release 3 6, matchedWant = Some (mk_want 11 6)\<rparr>]"
    by (simp add: trade_defs)
  show ?thesis
    using iOffer_membership [OF e [symmetric]] e by simp
qed

lemma handleSearch_ok:
  assumes "friend \<noteq> []"
  shows "handleSearch myCollection (Fetch_ok (Some friend)) friendWantlist myWantlist =
     (SetResult
        \<lparr>res_friendCollection = friend,
         res_overlap = overlap myCollection friend,
         res_onlyMe = onlyMe myCollection friend,
         res_onlyFriend = onlyFriend myCollection friend,
         res_compatibilityScore = compatibilityScore myCollection friend,
         res_youCanOffer = fst (trade_opportunities myCollection friend friendWantlist myWantlist),
         res_theyCanOffer =
           fst (snd (trade_opportunities myCollection friend friendWantlist myWantlist))\<rparr>,
      Get_friend_collection #
        snd (snd (trade_opportunities myCollection friend friendWantlist myWantlist)))"
  using assms by (simp add: handleSearch_def Let_def)

text \<open>
  Claim C6, as amended. Once the friend's collection is fetched and not empty, the
  comparison always ends with a result, whatever the two wantlist fetches do.
  \<open>youCanOffer\<close> depends on the friend's wantlist only: it is empty unless that fetch
  answered OK. \<open>theyCanOffer\<close> is empty when my wantlist fetch failed, and also when
  the friend's wantlist fetch threw. The fetches are issued one after the other, the
  friend's wantlist before mine, and when the friend's wantlist fetch throws, the
  request for my wantlist is not issued at all; in every other case both are issued.
\<close>

theorem wantlist_fetch_outcomes:
  assumes "friend \<noteq> []"
  shows "\<exists>res.
      handleSearch myCollection (Fetch_ok (Some friend)) friendWantlist myWantlist =
        (SetResult res,
         if friendWantlist = Throws then [Get_friend_collection, Get_friend_wantlist]
         else [Get_friend_collection, Get_friend_wantlist, Get_my_wantlist]) \<and>
      res_overlap res = overlap myCollection friend \<and>
      res_compatibilityScore res = compatibilityScore myCollection friend \<and>
      res_youCanOffer res =
        (case friendWantlist of
           Throws \<Rightarrow> []
         | Not_ok \<Rightarrow> []
         | Ok_json ws \<Rightarrow> trade_matches myCollection (wants_or_empty ws)) \<and>
      res_theyCanOffer res =
        (if friendWantlist = Throws then []
         else (case myWantlist of
                 Throws \<Rightarrow> []
               | Not_ok \<Rightarrow> []
               | Ok_json ws \<Rightarrow> trade_matches friend (wants_or_empty ws)))"
  unfolding handleSearch_ok [OF assms]
  by (cases friendWantlist) (simp_all add: trade_opportunities_def theyCanOffer_of_def)

theorem wantlist_fetch_outcomes_witness:
  "[mk_release 4 5] \<noteq> [] \<and>
   (\<exists>res. handleSearch [mk_release 1 6] (Fetch_ok (Some [mk_release 4 5])) Not_ok
             (Ok_json (Some [mk_want 9 5])) =
             (SetResult res, [Get_friend_collection, Get_friend_wantlist, Get_my_wantlist]) \<and>
      res_youCanOffer res = [] \<and>
      res_theyCanOffer res = [\<lparr>release = mk_release 4 5, matchedWant = Some (mk_want 9 5)\<rparr>])"
  using wantlist_fetch_outcomes [of "[mk_release 4 5]" "[mk_release 1 6]" Not_ok
      "Ok_json (Some [mk_want 9 5])"]
  by (simp add: trade_defs) blast

text \<open>
  Claim C6 as stated fails: my wantlist would match the friend's release 4, but the
  friend's wantlist fetch throws; \<open>theyCanOffer\<close> is empty as well, and my wantlist
  is not requested.
\<close>

theorem wantlist_fetch_throw_counterexample:
  "theyCanOffer_of [mk_release 4 5] (Ok_json (Some [mk_want 9 5])) =
     [\<lparr>release = mk_release 4 5, matchedWant = Some (mk_want 9 5)\<rparr>] \<and>
   handleSearch [mk_release 1 6] (Fetch_ok (Some [mk_release 4 5])) Throws
       (Ok_json (Some [mk_want 9 5])) =
     (SetResult
        \<lparr>res_friendCollection = [mk_release 4 5], res_overlap = [],
         res_onlyMe = [mk_release 1 6], res_onlyFriend = [mk_release 4 5],
         res_compatibilityScore = 0, res_youCanOffer = [], res_theyCanOffer = []\<rparr>,
      [Get_friend_collection, Get_friend_wantlist])"
  by (simp add: handleSearch_def Let_def trade_defs compatibilityScore_def compare_defs
      to_double_exact Math_round_numeral)

end
